theory Spec2Isabelle
  imports Main "HOL-Library.Sublist"
begin

section \<open>JavaScript values used by server.js\<close>

text \<open>
  A JavaScript string is modelled as a \<open>string\<close>; a value that may be \<open>undefined\<close> or
  \<open>null\<close> is a \<open>string option\<close>.  All delimiters and character classes that the source
  tests (\<open>/\<close>, \<open>.\<close>, space, \<open>[a-zA-Z0-9]\<close>, \<open>\d\<close>, the words \<open>http\<close>, \<open>upload\<close>, \<open>bearer\<close>) are
  ASCII, so the functions below compare single characters only.
\<close>

text \<open>Truthiness of an optional string: \<open>undefined\<close>, \<open>null\<close> and \<open>''\<close> are falsy.\<close>

definition truthy :: "string option \<Rightarrow> bool" where
  "truthy v = (case v of None \<Rightarrow> False | Some s \<Rightarrow> s \<noteq> [])"

text \<open>\<open>s.startsWith(p)\<close> and \<open>s.includes(t)\<close> (the latter under the name \<open>includes_str\<close>).\<close>

definition startsWith :: "string \<Rightarrow> string \<Rightarrow> bool" where
  "startsWith s p = prefix p s"

fun includes_str :: "string \<Rightarrow> string \<Rightarrow> bool" where
  "includes_str s [] = True"
| "includes_str [] (t # ts) = False"
| "includes_str (x # xs) (t # ts) = (prefix (t # ts) (x # xs) \<or> includes_str xs (t # ts))"

text \<open>\<open>s.split(c)\<close> for a one-character separator: always at least one piece.\<close>

fun split_on :: "char \<Rightarrow> string \<Rightarrow> string list" where
  "split_on c [] = [[]]"
| "split_on c (x # xs) =
     (if x = c then [] # split_on c xs
      else (case split_on c xs of
              [] \<Rightarrow> [[x]]
            | y # ys \<Rightarrow> (x # y) # ys))"

text \<open>\<open>.filter(Boolean)\<close> on an array of strings drops the empty ones.\<close>

definition filter_Boolean :: "string list \<Rightarrow> string list" where
  "filter_Boolean parts = filter (\<lambda>p. p \<noteq> []) parts"

text \<open>\<open>parts.join('/')\<close>.\<close>

fun join_slash :: "string list \<Rightarrow> string" where
  "join_slash [] = []"
| "join_slash [p] = p"
| "join_slash (p # q # ps) = p @ CHR ''/'' # join_slash (q # ps)"

text \<open>\<open>arr.pop()\<close> read as a value: the last element, \<open>undefined\<close> on an empty array.\<close>

definition pop :: "'a list \<Rightarrow> 'a option" where
  "pop xs = (if xs = [] then None else Some (last xs))"

text \<open>\<open>arr.findIndex(P)\<close>: \<open>None\<close> stands for \<open>-1\<close>.\<close>

fun findIndex :: "('a \<Rightarrow> bool) \<Rightarrow> 'a list \<Rightarrow> nat option" where
  "findIndex P [] = None"
| "findIndex P (x # xs) =
     (if P x then Some 0 else map_option Suc (findIndex P xs))"

definition is_digit :: "char \<Rightarrow> bool" where
  "is_digit c = (c \<in> set ''0123456789'')"

definition is_alnum :: "char \<Rightarrow> bool" where
  "is_alnum c =
     (c \<in> set ''abcdefghijklmnopqrstuvwxyzABCDEFGHIJKLMNOPQRSTUVWXYZ0123456789'')"

text \<open>\<open>/^v\d+$/.test(s)\<close>.\<close>

definition is_version :: "string \<Rightarrow> bool" where
  "is_version s =
     (case s of [] \<Rightarrow> False
      | c # ds \<Rightarrow> c = CHR ''v'' \<and> ds \<noteq> [] \<and> list_all is_digit ds)"

text \<open>
  \<open>s.replace(/\.[a-zA-Z0-9]+$/, '')\<close>: the regular expression is tried at every position from
  the left; it matches at a dot whose remainder is a non-empty run of alphanumerics reaching
  the end of the string, and the match is deleted.
\<close>

fun strip_ext :: "string \<Rightarrow> string" where
  "strip_ext [] = []"
| "strip_ext (c # cs) =
     (if c = CHR ''.'' then
        (if cs \<noteq> [] \<and> list_all is_alnum cs then [] else c # strip_ext cs)
      else c # strip_ext cs)"

section \<open>The identity resolver: extractPublicId\<close>

text \<open>
  \<open>new URL(s)\<close> belongs to the platform, not to the repository.  It is a parameter of the
  model: \<open>parseURL s\<close> is \<open>Some pathname\<close> when the constructor succeeds and \<open>None\<close> when it
  throws its \<open>TypeError\<close>.
\<close>

type_synonym url_parser = "string \<Rightarrow> string option"

datatype js_error = TypeError | DbError | RemoteError

text \<open>The path segments that every URL branch of the file computes first.\<close>

definition path_parts :: "string \<Rightarrow> string list" where
  "path_parts pathname = filter_Boolean (split_on CHR ''/'' pathname)"

definition is_upload :: "string \<Rightarrow> bool" where
  "is_upload p = (p = ''upload'' \<or> p = ''uploads'')"

text \<open>Lines 487-491: drop everything up to the upload segment, then a version segment.\<close>

definition after_upload :: "string list \<Rightarrow> string list" where
  "after_upload parts =
     (case findIndex is_upload parts of
        Some uploadIdx \<Rightarrow> drop (uploadIdx + 1) parts
      | None \<Rightarrow> parts)"

definition drop_version :: "string list \<Rightarrow> string list" where
  "drop_version candidateParts =
     (case candidateParts of
        [] \<Rightarrow> []
      | p # ps \<Rightarrow> if is_version p then ps else candidateParts)"

text \<open>The body of the \<open>try\<close> block (lines 483-501); \<open>Inl\<close> is the exception it throws.\<close>

definition extractPublicId_try :: "url_parser \<Rightarrow> string \<Rightarrow> js_error + string" where
  "extractPublicId_try parseURL maybeIdOrUrl =
     (case parseURL maybeIdOrUrl of
        None \<Rightarrow> Inl TypeError
      | Some pathname \<Rightarrow>
          (let parts = path_parts pathname;
               candidateParts = drop_version (after_upload parts);
               joined = strip_ext (join_slash candidateParts)
           in if joined = [] then
                (let lastPart = (case pop parts of None \<Rightarrow> [] | Some l \<Rightarrow> l)
                 in Inr (strip_ext lastPart))
              else Inr joined))"

text \<open>The \<open>catch\<close> block (lines 503-506).\<close>

definition extractPublicId_catch :: "string \<Rightarrow> string" where
  "extractPublicId_catch raw =
     (let lastPart = pop (filter_Boolean (split_on CHR ''/'' raw))
      in strip_ext (case lastPart of None \<Rightarrow> raw | Some l \<Rightarrow> l))"

text \<open>
  The whole function.  The result is \<open>Inr None\<close> for \<open>null\<close>, \<open>Inr (Some s)\<close> for a string and
  \<open>Inl e\<close> for an exception that leaves the function.
\<close>

definition extractPublicId :: "url_parser \<Rightarrow> string option \<Rightarrow> js_error + string option" where
  "extractPublicId parseURL maybeIdOrUrl =
     (case maybeIdOrUrl of
        None \<Rightarrow> Inr None
      | Some s \<Rightarrow>
          if s = [] then Inr None
          else if \<not> startsWith s ''http'' \<and> \<not> includes_str s ''/'' then Inr (Some s)
          else (case extractPublicId_try parseURL s of
                  Inr r \<Rightarrow> Inr (Some r)
                | Inl e \<Rightarrow> Inr (Some (extractPublicId_catch s))))"

section \<open>The content document\<close>

text \<open>
  The Mongoose schemas of lines 127-152, read as plain objects.  \<open>filename\<close> is not declared
  by \<open>ImageSchema\<close>, but the deletion handlers read it, so it is a field here; on a document
  that conforms to the schema it is \<open>None\<close>.
\<close>

record image =
  url :: "string option"
  public_id :: "string option"
  caption :: "string option"
  filename :: "string option"

record person =
  name :: string
  position :: "string option"
  photo :: "image option"

record award_category =
  category :: string
  winner :: "person option"
  firstRunnerUp :: "person option"
  secondRunnerUp :: "person option"

record content =
  year :: int
  videoLink :: "string option"
  photos :: "image list"
  awards :: "award_category list"
  partners :: "image list"

section \<open>Collaborators: document store, remote media store, console\<close>

text \<open>
  The document store maps a year to its document.  \<open>Content.findOne\<close> and \<open>doc.save\<close> may
  reject; \<open>cloudinary.uploader.destroy\<close> resolves with a result or rejects.  What they do is
  not decided by the repository, so it is a parameter of every handler.
\<close>

type_synonym store = "int \<Rightarrow> content option"

datatype destroy_result = Destroyed | NotFoundOnRemote

record env =
  parseURL :: url_parser
  findOne_throws :: bool
  save_throws :: bool
  uploader_destroy :: "string \<Rightarrow> js_error + destroy_result"

text \<open>What the handlers write to the console about a remote call.\<close>

datatype log_entry =
    DestroyResult string destroy_result
  | DestroyThrew string js_error

datatype message =
    InvalidYear
  | ContentNotFound int
  | PhotoNotFound
  | PartnerNotFound
  | CategoryRequired
  | InvalidRole
  | AwardCategoryNotFound
  | RoleNotSet
  | ServerError

datatype body = Doc content | Message message

type_synonym response = "nat \<times> body"

type_synonym outcome = "response \<times> store \<times> log_entry list"

definition Content_findOne :: "env \<Rightarrow> store \<Rightarrow> int \<Rightarrow> js_error + content option" where
  "Content_findOne env db y = (if findOne_throws env then Inl DbError else Inr (db y))"

text \<open>\<open>doc.save()\<close> replaces the document that was found under the year \<open>y\<close>.\<close>

definition doc_save :: "env \<Rightarrow> store \<Rightarrow> int \<Rightarrow> content \<Rightarrow> js_error + store" where
  "doc_save env db y doc = (if save_throws env then Inl DbError else Inr (db(y \<mapsto> doc)))"

text \<open>
  \<open>try { r = await destroy(c); console.log(r) } catch (e) { console.warn(e) }\<close>: both
  branches fall through to the statement after the block.
\<close>

definition try_destroy :: "env \<Rightarrow> string \<Rightarrow> log_entry" where
  "try_destroy env c =
     (case uploader_destroy env c of
        Inr r \<Rightarrow> DestroyResult c r
      | Inl e \<Rightarrow> DestroyThrew c e)"

text \<open>The outer \<open>catch (err)\<close> of every handler answers 500.\<close>

definition server_error :: response where
  "server_error = (500, Message ServerError)"

section \<open>Arrays of sub-documents\<close>

text \<open>
  The handlers compare array elements by reference (\<open>p !== photo\<close>).  An element's identity
  is its index in the array it was read from, so the arrays are processed with every element
  paired with that index.
\<close>

definition tag :: "'a list \<Rightarrow> (nat \<times> 'a) list" where
  "tag xs = enumerate 0 xs"

text \<open>\<open>u && u.includes(x)\<close> on an optional string \<open>u\<close>.\<close>

definition url_includes :: "string option \<Rightarrow> string \<Rightarrow> bool" where
  "url_includes u x = (case u of None \<Rightarrow> False | Some s \<Rightarrow> s \<noteq> [] \<and> includes_str s x)"

text \<open>\<open>a || d\<close> where \<open>d\<close> is a string.\<close>

definition str_or :: "string option \<Rightarrow> string \<Rightarrow> string" where
  "str_or a d = (case a of None \<Rightarrow> d | Some s \<Rightarrow> if s = [] then d else s)"

section \<open>Deleting a photo or a partner logo\<close>

text \<open>Line 521 (and 825): the predicate of \<open>find\<close>.\<close>

definition matches_find :: "string \<Rightarrow> image \<Rightarrow> bool" where
  "matches_find public_id_param p =
     ((truthy (public_id p) \<and> public_id p = Some public_id_param)
      \<or> url_includes (url p) public_id_param)"

text \<open>Line 524 (and 827): the predicate whose matches the not-found branch filters out.\<close>

definition matches_cleanup :: "string \<Rightarrow> image \<Rightarrow> bool" where
  "matches_cleanup public_id_param p =
     (public_id p = Some public_id_param \<or> url_includes (url p) public_id_param)"

text \<open>
  Line 530 (and 832), for the located entry \<open>item\<close> (\<open>photo\<close> or \<open>partner\<close> in the source):
  \<open>item.public_id || item.filename || extractPublicId(item.url) || public_id_param\<close>.
\<close>

definition delete_candidate :: "url_parser \<Rightarrow> image \<Rightarrow> string \<Rightarrow> js_error + string" where
  "delete_candidate parse item public_id_param =
     (if truthy (public_id item) then Inr (str_or (public_id item) public_id_param)
      else if truthy (filename item) then Inr (str_or (filename item) public_id_param)
      else (case extractPublicId parse (url item) of
              Inl e \<Rightarrow> Inl e
            | Inr r \<Rightarrow> Inr (str_or r public_id_param)))"

text \<open>Lines 541-545.\<close>

definition remove_photo :: "(nat \<times> image) \<Rightarrow> (nat \<times> image) list \<Rightarrow> (nat \<times> image) list" where
  "remove_photo item ps =
     (let ps1 = filter (\<lambda>p. \<not> (public_id (snd p) = public_id (snd item)
                                 \<and> truthy (public_id (snd item)))
                           \<and> fst p \<noteq> fst item) ps
      in if list_ex (\<lambda>p. fst p = fst item) ps1
         then filter (\<lambda>p. \<not> (truthy (url (snd p)) \<and> truthy (url (snd item))
                               \<and> url (snd p) = url (snd item))) ps1
         else ps1)"

text \<open>Lines 842-845.\<close>

definition remove_partner :: "(nat \<times> image) \<Rightarrow> (nat \<times> image) list \<Rightarrow> (nat \<times> image) list" where
  "remove_partner item ps =
     (let ps1 = filter (\<lambda>p. fst p \<noteq> fst item
                           \<and> \<not> (truthy (public_id (snd p))
                                 \<and> public_id (snd p) = public_id (snd item))) ps
      in if list_ex (\<lambda>p. fst p = fst item) ps1
         then filter (\<lambda>p. \<not> (truthy (url (snd p)) \<and> truthy (url (snd item))
                               \<and> url (snd p) = url (snd item))) ps1
         else ps1)"

text \<open>
  \<open>DELETE /api/content/:year/photos/:public_id\<close> (lines 511-553).  \<open>yearParam\<close> is
  \<open>Number(req.params.year)\<close>, with \<open>None\<close> for \<open>NaN\<close>.
\<close>

definition delete_photo :: "env \<Rightarrow> store \<Rightarrow> int option \<Rightarrow> string \<Rightarrow> outcome" where
  "delete_photo env db yearParam public_id_param =
     (case yearParam of
        None \<Rightarrow> ((400, Message InvalidYear), db, [])
      | Some y \<Rightarrow>
     (case Content_findOne env db y of
        Inl e \<Rightarrow> (server_error, db, [])
      | Inr None \<Rightarrow> ((404, Message (ContentNotFound y)), db, [])
      | Inr (Some doc) \<Rightarrow>
     (case List.find (\<lambda>p. matches_find public_id_param (snd p)) (tag (photos doc)) of
        None \<Rightarrow>
          (let doc' = doc\<lparr>photos :=
                        filter (\<lambda>p. \<not> matches_cleanup public_id_param p) (photos doc)\<rparr>
           in case doc_save env db y doc' of
                Inl e \<Rightarrow> (server_error, db, [])
              | Inr db' \<Rightarrow> ((404, Message PhotoNotFound), db', []))
      | Some item \<Rightarrow>
     (case delete_candidate (parseURL env) (snd item) public_id_param of
        Inl e \<Rightarrow> (server_error, db, [])
      | Inr candidate \<Rightarrow>
          (let console = [try_destroy env candidate];
               doc' = doc\<lparr>photos := map snd (remove_photo item (tag (photos doc)))\<rparr>
           in case doc_save env db y doc' of
                Inl e \<Rightarrow> (server_error, db, console)
              | Inr db' \<Rightarrow> ((200, Doc doc'), db', console))))))"

text \<open>\<open>DELETE /api/content/:year/partners/:public_id\<close> (lines 816-853).\<close>

definition delete_partner :: "env \<Rightarrow> store \<Rightarrow> int option \<Rightarrow> string \<Rightarrow> outcome" where
  "delete_partner env db yearParam public_id_param =
     (case yearParam of
        None \<Rightarrow> ((400, Message InvalidYear), db, [])
      | Some y \<Rightarrow>
     (case Content_findOne env db y of
        Inl e \<Rightarrow> (server_error, db, [])
      | Inr None \<Rightarrow> ((404, Message (ContentNotFound y)), db, [])
      | Inr (Some doc) \<Rightarrow>
     (case List.find (\<lambda>p. matches_find public_id_param (snd p)) (tag (partners doc)) of
        None \<Rightarrow>
          (let doc' = doc\<lparr>partners :=
                        filter (\<lambda>p. \<not> matches_cleanup public_id_param p) (partners doc)\<rparr>
           in case doc_save env db y doc' of
                Inl e \<Rightarrow> (server_error, db, [])
              | Inr db' \<Rightarrow> ((404, Message PartnerNotFound), db', []))
      | Some item \<Rightarrow>
     (case delete_candidate (parseURL env) (snd item) public_id_param of
        Inl e \<Rightarrow> (server_error, db, [])
      | Inr candidate \<Rightarrow>
          (let console = [try_destroy env candidate];
               doc' = doc\<lparr>partners := map snd (remove_partner item (tag (partners doc)))\<rparr>
           in case doc_save env db y doc' of
                Inl e \<Rightarrow> (server_error, db, console)
              | Inr db' \<Rightarrow> ((200, Doc doc'), db', console))))))"

section \<open>Award slots and categories\<close>

text \<open>\<open>['winner','firstRunnerUp','secondRunnerUp'].includes(role)\<close>.\<close>

definition valid_role :: "string \<Rightarrow> bool" where
  "valid_role role = (role \<in> set [''winner'', ''firstRunnerUp'', ''secondRunnerUp''])"

text \<open>\<open>cat[role]\<close> read and written, for the three role names.\<close>

definition get_role :: "string \<Rightarrow> award_category \<Rightarrow> person option" where
  "get_role role cat =
     (if role = ''winner'' then winner cat
      else if role = ''firstRunnerUp'' then firstRunnerUp cat
      else if role = ''secondRunnerUp'' then secondRunnerUp cat
      else None)"

definition set_role :: "string \<Rightarrow> person \<Rightarrow> award_category \<Rightarrow> award_category" where
  "set_role role v cat =
     (if role = ''winner'' then cat\<lparr>winner := Some v\<rparr>
      else if role = ''firstRunnerUp'' then cat\<lparr>firstRunnerUp := Some v\<rparr>
      else if role = ''secondRunnerUp'' then cat\<lparr>secondRunnerUp := Some v\<rparr>
      else cat)"

text \<open>
  Lines 649-662 (and 735-748): the candidate derived from a truthy \<open>photo.url\<close>.  The \<open>try\<close>
  block pushes the derived key when it is non-empty; the \<open>catch\<close> block pushes the last piece
  of \<open>url.split('/')\<close>, extension stripped, when that piece is non-empty.
\<close>

definition derived_candidates :: "url_parser \<Rightarrow> string \<Rightarrow> string list" where
  "derived_candidates parse u =
     (case parse u of
        Some pathname \<Rightarrow>
          (let parts = drop_version (after_upload (path_parts pathname));
               derived = strip_ext (join_slash parts)
           in if derived \<noteq> [] then [derived] else [])
      | None \<Rightarrow>
          (case pop (split_on CHR ''/'' u) of
             None \<Rightarrow> []
           | Some lastPiece \<Rightarrow> if lastPiece \<noteq> [] then [strip_ext lastPiece] else []))"

text \<open>Lines 646-662 (and 732-748): \<open>candidates\<close> for one slot photo.\<close>

definition award_candidates :: "url_parser \<Rightarrow> image \<Rightarrow> string list" where
  "award_candidates parse ph =
     (if truthy (public_id ph) then [str_or (public_id ph) []] else [])
     @ (if truthy (filename ph) then [str_or (filename ph) []] else [])
     @ (if truthy (url ph) then derived_candidates parse (str_or (url ph) []) else [])"

text \<open>Lines 665-678: the loop over \<open>candidates\<close> with the set \<open>tried\<close>.\<close>

fun destroy_loop :: "env \<Rightarrow> string list \<Rightarrow> string list \<Rightarrow> log_entry list" where
  "destroy_loop env tried [] = []"
| "destroy_loop env tried (c # cs) =
     (if c = [] \<or> c \<in> set tried then destroy_loop env tried cs
      else try_destroy env c # destroy_loop env (c # tried) cs)"

text \<open>\<open>[...new Set(candidates)]\<close>: the first occurrence of every value, in order.\<close>

fun spread_Set :: "string list \<Rightarrow> string list \<Rightarrow> string list" where
  "spread_Set seen [] = []"
| "spread_Set seen (c # cs) =
     (if c \<in> set seen then spread_Set seen cs else c # spread_Set (c # seen) cs)"

text \<open>Lines 751-760.\<close>

definition destroy_each :: "env \<Rightarrow> string list \<Rightarrow> log_entry list" where
  "destroy_each env candidates =
     map (try_destroy env) (filter (\<lambda>c. c \<noteq> []) (spread_Set [] candidates))"

text \<open>Lines 692-698: \<open>p\<close> is dropped from \<open>doc.photos\<close> when this holds.\<close>

definition same_photo :: "image \<Rightarrow> image \<Rightarrow> bool" where
  "same_photo ph p =
     (let samePublicId = truthy (public_id ph) \<and> truthy (public_id p)
                           \<and> public_id p = public_id ph;
          sameFilename = truthy (filename ph) \<and> truthy (public_id p)
                           \<and> public_id p = filename ph;
          sameUrl = truthy (url ph) \<and> truthy (url p) \<and> url p = url ph
      in samePublicId \<or> sameFilename \<or> sameUrl)"

text \<open>
  Lines 684-688.  The record comes from \<open>Content.findOne\<close> without \<open>.lean()\<close> (line 634), so
  \<open>cat[role]\<close> is a Mongoose sub-document: its fields are accessors, not own properties.  The
  spread \<open>{ ...cat[role] }\<close> copies the sub-document's internal state, \<open>delete preserved.photo\<close>
  finds no own property \<open>photo\<close> to remove, and the object assigned back to \<open>cat[role]\<close> still
  carries \<open>name\<close>, \<open>position\<close> and \<open>photo\<close>.  The three statements leave the slot as it was.
\<close>

definition preserved_slot :: "person \<Rightarrow> person" where
  "preserved_slot slot = slot"

text \<open>\<open>DELETE /api/content/:year/awards/:category/:role/photo\<close> (lines 623-708).\<close>

definition delete_award_photo ::
  "env \<Rightarrow> store \<Rightarrow> int option \<Rightarrow> string \<Rightarrow> string \<Rightarrow> outcome" where
  "delete_award_photo env db yearParam categoryParam role =
     (case yearParam of
        None \<Rightarrow> ((400, Message InvalidYear), db, [])
      | Some y \<Rightarrow>
     if categoryParam = [] then ((400, Message CategoryRequired), db, [])
     else if \<not> valid_role role then ((400, Message InvalidRole), db, [])
     else
     (case Content_findOne env db y of
        Inl e \<Rightarrow> (server_error, db, [])
      | Inr None \<Rightarrow> ((404, Message (ContentNotFound y)), db, [])
      | Inr (Some doc) \<Rightarrow>
     (case List.find (\<lambda>a. category (snd a) = categoryParam) (tag (awards doc)) of
        None \<Rightarrow> ((404, Message AwardCategoryNotFound), db, [])
      | Some cat \<Rightarrow>
     (case get_role role (snd cat) of
        None \<Rightarrow> ((404, Message RoleNotSet), db, [])
      | Some slot \<Rightarrow>
          (let console =
                 (case photo slot of
                    None \<Rightarrow> []
                  | Some ph \<Rightarrow>
                      if truthy (public_id ph) \<or> truthy (filename ph) \<or> truthy (url ph)
                      then destroy_loop env [] (award_candidates (parseURL env) ph)
                      else []);
               preserved = preserved_slot slot;
               awards' = (awards doc)[fst cat := set_role role preserved (snd cat)];
               photos' =
                 (case photo slot of
                    None \<Rightarrow> photos doc
                  | Some ph \<Rightarrow> filter (\<lambda>p. \<not> same_photo ph p) (photos doc));
               doc' = doc\<lparr>photos := photos', awards := awards'\<rparr>
           in case doc_save env db y doc' of
                Inl e \<Rightarrow> (server_error, db, console)
              | Inr db' \<Rightarrow> ((200, Doc doc'), db', console))))))"

text \<open>Line 726 and lines 767-769: the populated slots of a category and their photos.\<close>

definition people_of :: "award_category \<Rightarrow> person list" where
  "people_of cat = List.map_filter id [winner cat, firstRunnerUp cat, secondRunnerUp cat]"

definition slot_photos :: "award_category \<Rightarrow> image list" where
  "slot_photos cat = List.map_filter photo (people_of cat)"

text \<open>Line 770: \<open>[photo.public_id, photo.filename, photo.url].filter(Boolean)\<close>.\<close>

definition urls_or_ids :: "image \<Rightarrow> string list" where
  "urls_or_ids ph =
     List.map_filter (\<lambda>v. if truthy v then v else None) [public_id ph, filename ph, url ph]"

text \<open>Line 773: \<open>p\<close> is dropped from \<open>doc.photos\<close> when this holds.\<close>

definition swept :: "string list \<Rightarrow> image \<Rightarrow> bool" where
  "swept photoUrlsOrIds p =
     list_ex (\<lambda>idOrUrl. idOrUrl \<noteq> []
                \<and> (public_id p = Some idOrUrl \<or> url p = Some idOrUrl
                     \<or> url_includes (url p) idOrUrl)) photoUrlsOrIds"

text \<open>\<open>DELETE /api/content/:year/awards/:category\<close> (lines 710-783).\<close>

definition delete_award_category :: "env \<Rightarrow> store \<Rightarrow> int option \<Rightarrow> string \<Rightarrow> outcome" where
  "delete_award_category env db yearParam categoryParam =
     (case yearParam of
        None \<Rightarrow> ((400, Message InvalidYear), db, [])
      | Some y \<Rightarrow>
     if categoryParam = [] then ((400, Message CategoryRequired), db, [])
     else
     (case Content_findOne env db y of
        Inl e \<Rightarrow> (server_error, db, [])
      | Inr None \<Rightarrow> ((404, Message (ContentNotFound y)), db, [])
      | Inr (Some doc) \<Rightarrow>
     (case List.find (\<lambda>a. category a = categoryParam) (awards doc) of
        None \<Rightarrow> ((404, Message AwardCategoryNotFound), db, [])
      | Some cat \<Rightarrow>
          (let console =
                 concat (map (\<lambda>ph. destroy_each env (award_candidates (parseURL env) ph))
                             (slot_photos cat));
               awards' = filter (\<lambda>a. category a \<noteq> categoryParam) (awards doc);
               photoUrlsOrIds = concat (map urls_or_ids (slot_photos cat));
               photos' =
                 (if photoUrlsOrIds \<noteq> []
                  then filter (\<lambda>p. \<not> swept photoUrlsOrIds p) (photos doc)
                  else photos doc);
               doc' = doc\<lparr>photos := photos', awards := awards'\<rparr>
           in case doc_save env db y doc' of
                Inl e \<Rightarrow> (server_error, db, console)
              | Inr db' \<Rightarrow> ((200, Doc doc'), db', console)))))"

section \<open>The access control gate\<close>












section \<open>Reading the console\<close>

text \<open>The key that a logged remote call was made with.\<close>

fun destroy_key :: "log_entry \<Rightarrow> string" where
  "destroy_key (DestroyResult c r) = c"
| "destroy_key (DestroyThrew c e) = c"

section \<open>Concrete inputs for the worked examples\<close>

text \<open>
  An environment in which the document store works and every remote delete is rejected, and
  one in which the document store is unreachable.  The parser table holds the one URL that
  the examples parse.
\<close>

definition example_env :: env where
  "example_env =
     \<lparr>parseURL = [''https://cdn.io/upload/v1/f/a.jpg'' \<mapsto> ''/upload/v1/f/a.jpg''],
      findOne_throws = False,
      save_throws = False,
      uploader_destroy = (\<lambda>k. Inl RemoteError)\<rparr>"

definition offline_env :: env where
  "offline_env = example_env\<lparr>findOne_throws := True\<rparr>"

definition photo_a :: image where
  "photo_a = \<lparr>url = Some ''https://cdn/x/a.jpg'', public_id = Some ''x/a'',
              caption = None, filename = None\<rparr>"

definition photo_a2 :: image where
  "photo_a2 = \<lparr>url = Some ''https://cdn/x/a2.jpg'', public_id = Some ''x/a2'',
               caption = None, filename = None\<rparr>"

definition logo_l :: image where
  "logo_l = \<lparr>url = Some ''https://cdn/p/l.png'', public_id = Some ''p/l'',
             caption = None, filename = None\<rparr>"

definition keyless :: image where
  "keyless = \<lparr>url = None, public_id = Some [], caption = None, filename = None\<rparr>"

definition gallery_doc :: content where
  "gallery_doc = \<lparr>year = 2024, videoLink = None, photos = [photo_a, photo_a2],
                  awards = [], partners = [logo_l]\<rparr>"

definition keyless_doc :: content where
  "keyless_doc = \<lparr>year = 2024, videoLink = None, photos = [keyless],
                  awards = [], partners = [keyless]\<rparr>"

definition slot_photo :: image where
  "slot_photo = \<lparr>url = Some ''https://cdn.io/upload/v1/f/a.jpg'', public_id = None,
                 caption = None, filename = None\<rparr>"

definition gallery_copy :: image where
  "gallery_copy = \<lparr>url = Some ''https://cdn.io/upload/v2/f/a.jpg'', public_id = Some ''f/a'',
                   caption = None, filename = None\<rparr>"

definition ada :: person where
  "ada = \<lparr>name = ''Ada'', position = Some ''winner'', photo = Some slot_photo\<rparr>"

definition best :: award_category where
  "best = \<lparr>category = ''Best'', winner = Some ada, firstRunnerUp = None,
           secondRunnerUp = None\<rparr>"

definition awards_doc :: content where
  "awards_doc = \<lparr>year = 2024, videoLink = None, photos = [gallery_copy],
                 awards = [best], partners = []\<rparr>"

definition photo_k2 :: image where
  "photo_k2 = \<lparr>url = Some ''https://cdn/k2.jpg'', public_id = Some ''k2'',
               caption = None, filename = None\<rparr>"

definition bob :: person where
  "bob = \<lparr>name = ''Bob'', position = Some ''winner'', photo = Some photo_k2\<rparr>"

definition best_empty :: award_category where
  "best_empty = \<lparr>category = ''Best'', winner = None, firstRunnerUp = None,
                 secondRunnerUp = None\<rparr>"

definition best_again :: award_category where
  "best_again = \<lparr>category = ''Best'', winner = Some bob, firstRunnerUp = None,
                 secondRunnerUp = None\<rparr>"

definition dup_doc :: content where
  "dup_doc = \<lparr>year = 2024, videoLink = None, photos = [photo_k2],
              awards = [best_empty, best_again], partners = []\<rparr>"


section \<open>Properties of the string functions\<close>

lemma includes_str_sublist: "includes_str s t = sublist t s"
  by (induction s t rule: includes_str.induct) (auto simp: sublist_Cons_right)

lemma includes_str_single: "includes_str s [c] = (c \<in> set s)"
  by (induction s) auto

lemma split_on_no_sep: "c \<notin> set seg \<Longrightarrow> split_on c seg = [seg]"
  by (induction seg) auto

lemma split_on_append_sep:
  "c \<notin> set seg \<Longrightarrow> split_on c (seg @ c # rest) = seg # split_on c rest"
  by (induction seg) auto

lemma split_on_slash_segments:
  "\<forall>seg \<in> set segs. c \<notin> set seg \<Longrightarrow>
   split_on c (concat (map ((#) c) segs)) = [] # segs"
proof (induction segs)
  case Nil
  show ?case by simp
next
  case (Cons seg segs)
  show ?case
  proof (cases segs)
    case Nil
    with Cons.prems show ?thesis by (simp add: split_on_no_sep)
  next
    case (Cons seg' segs')
    with Cons.IH Cons.prems show ?thesis
      by (auto simp: split_on_append_sep)
  qed
qed

lemma dot_not_alnum: "\<not> is_alnum CHR ''.''"
  by (simp add: is_alnum_def)

lemma strip_ext_append_ext:
  "ext \<noteq> [] \<Longrightarrow> list_all is_alnum ext \<Longrightarrow> strip_ext (base @ CHR ''.'' # ext) = base"
  by (induction base) (auto simp: dot_not_alnum list_all_iff)

lemma strip_ext_no_dot: "CHR ''.'' \<notin> set s \<Longrightarrow> strip_ext s = s"
  by (induction s) auto

lemma findIndex_first:
  "\<forall>x \<in> set pre. \<not> P x \<Longrightarrow> P u \<Longrightarrow> findIndex P (pre @ u # rest) = Some (length pre)"
  by (induction pre) auto

lemma join_slash_snoc:
  "fs \<noteq> [] \<Longrightarrow> join_slash (fs @ [x]) = join_slash fs @ CHR ''/'' # x"
  by (induction fs rule: join_slash.induct) auto

lemma path_parts_empty_iff: "(path_parts s = []) = (set s \<subseteq> {CHR ''/''})"
  by (induction s)
     (auto simp: path_parts_def filter_Boolean_def split: list.splits if_splits)

lemma extractPublicId_returns: "\<exists>r. extractPublicId parse input = Inr r"
  by (auto simp: extractPublicId_def split: option.splits sum.splits)

lemma extractPublicId_catch_cases:
  "extractPublicId_catch raw =
     (if path_parts raw = [] then raw else strip_ext (last (path_parts raw)))"
proof (cases "path_parts raw = []")
  case True
  then have "set raw \<subseteq> {CHR ''/''}" by (simp add: path_parts_empty_iff)
  then have "CHR ''.'' \<notin> set raw" by auto
  with True show ?thesis
    by (simp add: extractPublicId_catch_def pop_def path_parts_def strip_ext_no_dot)
next
  case False
  then show ?thesis
    by (simp add: extractPublicId_catch_def pop_def path_parts_def)
qed

text \<open>
  Claim C3.  \<open>extractPublicId\<close> never lets an exception escape, whatever the URL parser does:
  every input yields a value.  \<open>null\<close> and the empty string yield \<open>null\<close>; every non-empty
  string yields a string.  When the URL constructor throws, that string is the input itself or
  the last non-empty segment of the input with its extension stripped.
\<close>

theorem extractPublicId_total:
  "(\<exists>r. extractPublicId parse input = Inr r)
   \<and> extractPublicId parse None = Inr None
   \<and> extractPublicId parse (Some []) = Inr None
   \<and> (\<exists>t. extractPublicId parse (Some (c # cs)) = Inr (Some t))
   \<and> (parse (c # cs) = None \<longrightarrow>
        extractPublicId parse (Some (c # cs)) = Inr (Some (c # cs))
        \<or> (path_parts (c # cs) \<noteq> []
            \<and> extractPublicId parse (Some (c # cs))
                = Inr (Some (strip_ext (last (path_parts (c # cs)))))))"
proof (intro conjI impI)
  show "\<exists>r. extractPublicId parse input = Inr r"
    by (rule extractPublicId_returns)
  show "extractPublicId parse None = Inr None"
    by (simp add: extractPublicId_def)
  show "extractPublicId parse (Some []) = Inr None"
    by (simp add: extractPublicId_def)
  show "\<exists>t. extractPublicId parse (Some (c # cs)) = Inr (Some t)"
    by (auto simp: extractPublicId_def split: sum.splits)
next
  assume fails: "parse (c # cs) = None"
  then have "extractPublicId_try parse (c # cs) = Inl TypeError"
    by (simp add: extractPublicId_try_def)
  then show "extractPublicId parse (Some (c # cs)) = Inr (Some (c # cs))
        \<or> (path_parts (c # cs) \<noteq> []
            \<and> extractPublicId parse (Some (c # cs))
                = Inr (Some (strip_ext (last (path_parts (c # cs))))))"
    by (simp add: extractPublicId_def extractPublicId_catch_cases)
qed

lemmas resolver_defs =
  extractPublicId_def extractPublicId_try_def extractPublicId_catch_def startsWith_def
  path_parts_def filter_Boolean_def pop_def after_upload_def drop_version_def is_upload_def
  is_version_def is_digit_def is_alnum_def

theorem extractPublicId_total_witness:
  "extractPublicId Map.empty (Some ''photos/pic.jpg'') = Inr (Some ''pic'')
   \<and> extractPublicId Map.empty (Some ''///'') = Inr (Some ''///'')"
proof -
  have a: "extractPublicId Map.empty (Some ''photos/pic.jpg'') = Inr (Some ''pic'')"
    by (simp add: resolver_defs)
  have b: "extractPublicId Map.empty (Some ''///'') = Inr (Some ''///'')"
    by (simp add: resolver_defs)
  from extractPublicId_total [of Map.empty None "CHR ''p''" "''hotos/pic.jpg''"] a b
  show ?thesis by simp
qed

text \<open>
  Claim C4, as amended.  For an input that contains a \<open>/\<close> and on which the URL constructor
  throws, \<open>extractPublicId\<close> returns the last non-empty segment with its extension stripped,
  whether or not that leaves an empty string; it returns the input unmodified when there is no
  non-empty segment, that is, when the input consists of \<open>/\<close> only.
\<close>

theorem extractPublicId_path_fallback:
  assumes "CHR ''/'' \<in> set raw" and "parse raw = None"
  shows "(path_parts raw \<noteq> [] \<longrightarrow>
            extractPublicId parse (Some raw) = Inr (Some (strip_ext (last (path_parts raw)))))
       \<and> (path_parts raw = [] \<longrightarrow> extractPublicId parse (Some raw) = Inr (Some raw))
       \<and> (path_parts raw = []) = (set raw = {CHR ''/''})"
proof -
  from assms(1) have ne: "raw \<noteq> []" by auto
  from assms(1) have inc: "includes_str raw ''/''" by (simp add: includes_str_single)
  from assms(2) have "extractPublicId_try parse raw = Inl TypeError"
    by (simp add: extractPublicId_try_def)
  with ne inc have "extractPublicId parse (Some raw) = Inr (Some (extractPublicId_catch raw))"
    by (simp add: extractPublicId_def)
  moreover from assms(1) have "(path_parts raw = []) = (set raw = {CHR ''/''})"
    by (auto simp: path_parts_empty_iff)
  ultimately show ?thesis by (simp add: extractPublicId_catch_cases)
qed

text \<open>
  Claim C4 as stated fails on \<open>a/.jpg\<close>, which has no scheme, so that the URL constructor
  throws: the last segment \<open>.jpg\<close> strips to the empty string, and the empty string is what
  is returned, not the input.
\<close>

theorem extractPublicId_path_fallback_counterexample:
  "strip_ext (last (path_parts ''a/.jpg'')) = []
   \<and> extractPublicId Map.empty (Some ''a/.jpg'') = Inr (Some [])
   \<and> extractPublicId Map.empty (Some ''a/.jpg'') \<noteq> Inr (Some ''a/.jpg'')"
  by (simp add: resolver_defs)

theorem extractPublicId_path_fallback_witness:
  "extractPublicId Map.empty (Some ''events/photos/pic.jpg'') = Inr (Some ''pic'')
   \<and> extractPublicId Map.empty (Some ''//'') = Inr (Some ''//'')"
proof -
  have p1: "path_parts ''events/photos/pic.jpg'' = [''events'', ''photos'', ''pic.jpg'']"
    by (simp add: resolver_defs)
  have p2: "path_parts ''//'' = []"
    by (simp add: resolver_defs)
  have s: "strip_ext ''pic.jpg'' = ''pic''" by (simp add: is_alnum_def)
  from extractPublicId_path_fallback [of "''events/photos/pic.jpg''" Map.empty]
       extractPublicId_path_fallback [of "''//''" Map.empty] p1 p2 s
  show ?thesis by simp
qed


lemma is_version_v: "digits \<noteq> [] \<Longrightarrow> list_all is_digit digits \<Longrightarrow> is_version (CHR ''v'' # digits)"
  by (simp add: is_version_def)

lemma slash_not_alnum: "\<not> is_alnum CHR ''/''"
  by (simp add: is_alnum_def)

lemma slash_not_digit: "\<not> is_digit CHR ''/''"
  by (simp add: is_digit_def)

lemma alnum_no_slash: "list_all is_alnum ext \<Longrightarrow> CHR ''/'' \<notin> set ext"
  using slash_not_alnum by (auto simp: list_all_iff)

lemma digits_no_slash: "list_all is_digit ds \<Longrightarrow> CHR ''/'' \<notin> set ds"
  using slash_not_digit by (auto simp: list_all_iff)

text \<open>
  Claim C2, as amended.  Let the input \<open>s\<close> begin with \<open>http\<close> or contain a \<open>/\<close> (otherwise
  line 478 returns it unchanged), and let the URL constructor give it the path
  \<open>/pre.../upload/v<digits>/<folder>/<stem>.<ext>\<close>, where no segment of \<open>pre\<close> is \<open>upload\<close> or
  \<open>uploads\<close>, the folder is one or more non-empty segments, and the extension is a non-empty
  alphanumeric string.  Then \<open>extractPublicId\<close> returns \<open><folder>/<stem>\<close>.  Nothing else is
  assumed of the input: a query string, a fragment or escapes may stand in it.
\<close>

theorem extractPublicId_versioned_upload_url:
  assumes parsed: "parse s = Some pathname"
    and guard: "startsWith s ''http'' \<or> CHR ''/'' \<in> set s"
    and shape: "pathname = concat (map ((#) CHR ''/'')
                  (pre @ [u, CHR ''v'' # digits] @ folder @ [stem @ CHR ''.'' # ext]))"
    and upload: "is_upload u"
    and pre: "\<forall>p \<in> set pre. p \<noteq> [] \<and> CHR ''/'' \<notin> set p \<and> \<not> is_upload p"
    and digits: "digits \<noteq> []" "list_all is_digit digits"
    and folder: "folder \<noteq> []" "\<forall>f \<in> set folder. f \<noteq> [] \<and> CHR ''/'' \<notin> set f"
    and stem: "CHR ''/'' \<notin> set stem"
    and ext: "ext \<noteq> []" "list_all is_alnum ext"
  shows "extractPublicId parse (Some s) = Inr (Some (join_slash folder @ CHR ''/'' # stem))"
proof -
  let ?file = "stem @ CHR ''.'' # ext"
  let ?segs = "pre @ [u, CHR ''v'' # digits] @ folder @ [?file]"
  have u_ok: "u \<noteq> [] \<and> CHR ''/'' \<notin> set u"
    using upload by (auto simp: is_upload_def)
  have v_ok: "CHR ''/'' \<notin> set (CHR ''v'' # digits)"
    using digits_no_slash [OF digits(2)] by simp
  have file_ok: "CHR ''/'' \<notin> set ?file"
    using stem alnum_no_slash [OF ext(2)] by simp
  have no_slash: "\<forall>seg \<in> set ?segs. CHR ''/'' \<notin> set seg"
    using pre folder(2) u_ok v_ok file_ok by auto
  have non_empty: "\<forall>seg \<in> set ?segs. seg \<noteq> []"
    using pre folder(2) u_ok by auto
  have "split_on CHR ''/'' pathname = [] # ?segs"
    unfolding shape using no_slash by (rule split_on_slash_segments)
  then have parts: "path_parts pathname = ?segs"
    using non_empty by (simp add: path_parts_def filter_Boolean_def filter_id_conv)
  have "findIndex is_upload ?segs = Some (length pre)"
    using pre upload
      findIndex_first [of pre is_upload u "(CHR ''v'' # digits) # folder @ [?file]"]
    by simp
  then have "after_upload ?segs = (CHR ''v'' # digits) # folder @ [?file]"
    by (simp add: after_upload_def)
  then have cand: "drop_version (after_upload ?segs) = folder @ [?file]"
    using is_version_v [OF digits] by (simp add: drop_version_def)
  have "join_slash (folder @ [?file]) = (join_slash folder @ CHR ''/'' # stem) @ CHR ''.'' # ext"
    using folder(1) by (simp add: join_slash_snoc)
  then have joined: "strip_ext (join_slash (folder @ [?file])) = join_slash folder @ CHR ''/'' # stem"
    using strip_ext_append_ext [OF ext, of "join_slash folder @ CHR ''/'' # stem"] by simp
  have try_ok: "extractPublicId_try parse s = Inr (join_slash folder @ CHR ''/'' # stem)"
    using parsed parts cand joined by (simp add: extractPublicId_try_def Let_def)
  from guard have "s \<noteq> []"
    by (auto simp: startsWith_def)
  moreover from guard have "startsWith s ''http'' \<or> includes_str s ''/''"
    by (simp add: includes_str_single)
  ultimately show ?thesis
    using try_ok by (auto simp: extractPublicId_def)
qed

text \<open>
  Claim C2 as stated fails when an earlier path segment is itself \<open>upload\<close>: \<open>findIndex\<close> stops
  at the first one, and everything after it is kept.
\<close>

theorem extractPublicId_versioned_upload_url_counterexample:
  "extractPublicId
     [''https://cdn.io/upload/image/upload/v1/events/pic.jpg''
        \<mapsto> ''/upload/image/upload/v1/events/pic.jpg'']
     (Some ''https://cdn.io/upload/image/upload/v1/events/pic.jpg'')
     = Inr (Some ''image/upload/v1/events/pic'')
   \<and> extractPublicId
     [''https://cdn.io/upload/image/upload/v1/events/pic.jpg''
        \<mapsto> ''/upload/image/upload/v1/events/pic.jpg'']
     (Some ''https://cdn.io/upload/image/upload/v1/events/pic.jpg'')
     \<noteq> Inr (Some ''events/pic'')"
  by (simp add: resolver_defs)

theorem extractPublicId_versioned_upload_url_witness:
  "extractPublicId
     [''https://cdn.io/demo/image/upload/v1712/events/photos/pic.jpg''
        \<mapsto> ''/demo/image/upload/v1712/events/photos/pic.jpg'']
     (Some ''https://cdn.io/demo/image/upload/v1712/events/photos/pic.jpg'')
     = Inr (Some ''events/photos/pic'')"
proof -
  let ?s = "''https://cdn.io/demo/image/upload/v1712/events/photos/pic.jpg''"
  let ?path = "''/demo/image/upload/v1712/events/photos/pic.jpg''"
  have h1: "[?s \<mapsto> ?path] ?s = Some ?path" by simp
  have h2: "startsWith ?s ''http'' \<or> CHR ''/'' \<in> set ?s" by (simp add: startsWith_def)
  have h3: "?path = concat (map ((#) CHR ''/'')
              ([''demo'', ''image''] @ [''upload'', CHR ''v'' # ''1712'']
               @ [''events'', ''photos''] @ [''pic'' @ CHR ''.'' # ''jpg'']))" by simp
  have h4: "is_upload ''upload''" by (simp add: is_upload_def)
  have h5: "\<forall>p \<in> set [''demo'', ''image'']. p \<noteq> [] \<and> CHR ''/'' \<notin> set p \<and> \<not> is_upload p"
    by (simp add: is_upload_def)
  have h6: "''1712'' \<noteq> []" by simp
  have h7: "list_all is_digit ''1712''" by (simp add: is_digit_def)
  have h8: "[''events'', ''photos''] \<noteq> []" by simp
  have h9: "\<forall>f \<in> set [''events'', ''photos'']. f \<noteq> [] \<and> CHR ''/'' \<notin> set f" by simp
  have h10: "CHR ''/'' \<notin> set ''pic''" by simp
  have h11: "''jpg'' \<noteq> []" by simp
  have h12: "list_all is_alnum ''jpg''" by (simp add: is_alnum_def)
  from extractPublicId_versioned_upload_url
         [of "[?s \<mapsto> ?path]" ?s ?path "[''demo'', ''image'']"
             "''upload''" "''1712''" "[''events'', ''photos'']" "''pic''" "''jpg''",
          OF h1 h2 h3 h4 h5 h6 h7 h8 h9 h10 h11 h12]
  show ?thesis by simp
qed

section \<open>Properties of the access control gate\<close>









section \<open>Properties of the deletion handlers\<close>

lemma map_snd_tag: "map snd (tag xs) = xs"
  by (simp add: tag_def)

lemma set_tag: "set (tag xs) = {(i, xs ! i) | i. i < length xs}"
  by (auto simp: tag_def in_set_enumerate_eq)

lemma find_tag_None:
  "(List.find (\<lambda>p. P (snd p)) (tag xs) = None) = (\<forall>x \<in> set xs. \<not> P x)"
proof -
  have "set xs = snd ` set (tag xs)"
    by (metis map_snd_tag set_map)
  then show ?thesis by (auto simp: find_None_iff)
qed

lemma find_tag_Some:
  assumes "List.find (\<lambda>p. P (snd p)) (tag xs) = Some item"
  shows "fst item < length xs \<and> snd item = xs ! fst item \<and> P (snd item)
         \<and> (\<forall>j < fst item. \<not> P (xs ! j))"
proof -
  from assms obtain k where k: "k < length (tag xs)" "P (snd (tag xs ! k))"
      "item = tag xs ! k" "\<forall>j<k. \<not> P (snd (tag xs ! j))"
    by (auto simp: find_Some_iff)
  have len: "length (tag xs) = length xs" by (simp add: tag_def)
  have nth: "\<And>j. j < length xs \<Longrightarrow> tag xs ! j = (j, xs ! j)"
    by (simp add: tag_def nth_enumerate_eq)
  from k len nth show ?thesis by auto
qed

lemma find_tag_first:
  assumes "i < length xs" and "P (xs ! i)" and "\<forall>j < i. \<not> P (xs ! j)"
  shows "List.find (\<lambda>p. P (snd p)) (tag xs) = Some (i, xs ! i)"
proof -
  have len: "length (tag xs) = length xs" by (simp add: tag_def)
  have nth: "\<And>j. j < length xs \<Longrightarrow> tag xs ! j = (j, xs ! j)"
    by (simp add: tag_def nth_enumerate_eq)
  show ?thesis
    unfolding find_Some_iff
    using assms len nth by (intro exI [of _ i]) auto
qed

lemma delete_candidate_returns: "\<exists>c. delete_candidate parse item ident = Inr c"
  using extractPublicId_returns [of parse "url item"]
  by (auto simp: delete_candidate_def)

lemma matches_find_cleanup: "matches_find ident p \<Longrightarrow> matches_cleanup ident p"
  by (auto simp: matches_find_def matches_cleanup_def)

lemma matches_cleanup_find:
  "ident \<noteq> [] \<Longrightarrow> matches_cleanup ident p \<Longrightarrow> matches_find ident p"
  by (auto simp: matches_find_def matches_cleanup_def truthy_def)

lemma delete_photo_not_found:
  assumes "\<not> findOne_throws env" and "db y = Some doc"
    and "\<forall>p \<in> set (photos doc). \<not> matches_find ident p"
  shows "delete_photo env db (Some y) ident =
     (if save_throws env then (server_error, db, [])
      else ((404, Message PhotoNotFound),
            db(y \<mapsto> doc\<lparr>photos := filter (\<lambda>p. \<not> matches_cleanup ident p) (photos doc)\<rparr>), []))"
proof -
  have "List.find (\<lambda>p. matches_find ident (snd p)) (tag (photos doc)) = None"
    using assms(3) by (simp add: find_tag_None)
  with assms(1,2) show ?thesis
    by (simp add: delete_photo_def Content_findOne_def doc_save_def Let_def)
qed

lemma delete_photo_found:
  assumes "\<not> findOne_throws env" and "db y = Some doc"
    and "List.find (\<lambda>p. matches_find ident (snd p)) (tag (photos doc)) = Some item"
  shows "\<exists>c. delete_candidate (parseURL env) (snd item) ident = Inr c \<and>
     delete_photo env db (Some y) ident =
     (if save_throws env then (server_error, db, [try_destroy env c])
      else ((200, Doc (doc\<lparr>photos := map snd (remove_photo item (tag (photos doc)))\<rparr>)),
            db(y \<mapsto> doc\<lparr>photos := map snd (remove_photo item (tag (photos doc)))\<rparr>),
            [try_destroy env c]))"
proof -
  obtain c where c: "delete_candidate (parseURL env) (snd item) ident = Inr c"
    using delete_candidate_returns by blast
  with assms show ?thesis
    by (simp add: delete_photo_def Content_findOne_def doc_save_def Let_def)
qed

lemma delete_partner_not_found:
  assumes "\<not> findOne_throws env" and "db y = Some doc"
    and "\<forall>p \<in> set (partners doc). \<not> matches_find ident p"
  shows "delete_partner env db (Some y) ident =
     (if save_throws env then (server_error, db, [])
      else ((404, Message PartnerNotFound),
            db(y \<mapsto> doc\<lparr>partners := filter (\<lambda>p. \<not> matches_cleanup ident p) (partners doc)\<rparr>), []))"
proof -
  have "List.find (\<lambda>p. matches_find ident (snd p)) (tag (partners doc)) = None"
    using assms(3) by (simp add: find_tag_None)
  with assms(1,2) show ?thesis
    by (simp add: delete_partner_def Content_findOne_def doc_save_def Let_def)
qed

lemma delete_partner_found:
  assumes "\<not> findOne_throws env" and "db y = Some doc"
    and "List.find (\<lambda>p. matches_find ident (snd p)) (tag (partners doc)) = Some item"
  shows "\<exists>c. delete_candidate (parseURL env) (snd item) ident = Inr c \<and>
     delete_partner env db (Some y) ident =
     (if save_throws env then (server_error, db, [try_destroy env c])
      else ((200, Doc (doc\<lparr>partners := map snd (remove_partner item (tag (partners doc)))\<rparr>)),
            db(y \<mapsto> doc\<lparr>partners := map snd (remove_partner item (tag (partners doc)))\<rparr>),
            [try_destroy env c]))"
proof -
  obtain c where c: "delete_candidate (parseURL env) (snd item) ident = Inr c"
    using delete_candidate_returns by blast
  with assms show ?thesis
    by (simp add: delete_partner_def Content_findOne_def doc_save_def Let_def)
qed


lemma filter_no_match: "\<forall>x \<in> set xs. \<not> P x \<Longrightarrow> filter (\<lambda>x. \<not> P x) xs = xs"
  by (induction xs) auto

lemma content_photos_same: "doc\<lparr>photos := photos doc\<rparr> = doc"
  by simp

lemma content_partners_same: "doc\<lparr>partners := partners doc\<rparr> = doc"
  by simp

lemma delete_photo_status_404:
  assumes "fst (fst (delete_photo env db yearParam ident)) = 404"
  shows "\<exists>y. yearParam = Some y \<and> \<not> findOne_throws env \<and>
           (db y = None \<and> delete_photo env db yearParam ident
                             = ((404, Message (ContentNotFound y)), db, [])
            \<or> (\<exists>doc. db y = Some doc \<and> \<not> save_throws env
                  \<and> (\<forall>p \<in> set (photos doc). \<not> matches_find ident p)))"
proof (cases yearParam)
  case None
  with assms show ?thesis by (simp add: delete_photo_def)
next
  case (Some y)
  show ?thesis
  proof (cases "findOne_throws env")
    case True
    with assms Some show ?thesis
      by (simp add: delete_photo_def Content_findOne_def server_error_def)
  next
    case nf: False
    show ?thesis
    proof (cases "db y")
      case None
      with nf Some show ?thesis
        by (simp add: delete_photo_def Content_findOne_def)
    next
      case (Some doc)
      note doc = this
      show ?thesis
      proof (cases "List.find (\<lambda>p. matches_find ident (snd p)) (tag (photos doc))")
        case None
        then have nm: "\<forall>p \<in> set (photos doc). \<not> matches_find ident p"
          by (simp add: find_tag_None)
        from delete_photo_not_found [of env db y doc ident, OF nf doc nm] assms \<open>yearParam = Some y\<close>
        have "\<not> save_throws env"
          by (auto simp: server_error_def split: if_splits)
        with nf doc nm \<open>yearParam = Some y\<close> show ?thesis by simp
      next
        case (Some item)
        from delete_photo_found [of env db y doc ident item, OF nf doc Some] assms \<open>yearParam = Some y\<close>
        show ?thesis
          by (auto simp: server_error_def split: if_splits)
      qed
    qed
  qed
qed

lemma delete_partner_status_404:
  assumes "fst (fst (delete_partner env db yearParam ident)) = 404"
  shows "\<exists>y. yearParam = Some y \<and> \<not> findOne_throws env \<and>
           (db y = None \<and> delete_partner env db yearParam ident
                             = ((404, Message (ContentNotFound y)), db, [])
            \<or> (\<exists>doc. db y = Some doc \<and> \<not> save_throws env
                  \<and> (\<forall>p \<in> set (partners doc). \<not> matches_find ident p)))"
proof (cases yearParam)
  case None
  with assms show ?thesis by (simp add: delete_partner_def)
next
  case (Some y)
  show ?thesis
  proof (cases "findOne_throws env")
    case True
    with assms Some show ?thesis
      by (simp add: delete_partner_def Content_findOne_def server_error_def)
  next
    case nf: False
    show ?thesis
    proof (cases "db y")
      case None
      with nf Some show ?thesis
        by (simp add: delete_partner_def Content_findOne_def)
    next
      case (Some doc)
      note doc = this
      show ?thesis
      proof (cases "List.find (\<lambda>p. matches_find ident (snd p)) (tag (partners doc))")
        case None
        then have nm: "\<forall>p \<in> set (partners doc). \<not> matches_find ident p"
          by (simp add: find_tag_None)
        from delete_partner_not_found [of env db y doc ident, OF nf doc nm] assms \<open>yearParam = Some y\<close>
        have "\<not> save_throws env"
          by (auto simp: server_error_def split: if_splits)
        with nf doc nm \<open>yearParam = Some y\<close> show ?thesis by simp
      next
        case (Some item)
        from delete_partner_found [of env db y doc ident item, OF nf doc Some] assms \<open>yearParam = Some y\<close>
        show ?thesis
          by (auto simp: server_error_def split: if_splits)
      qed
    qed
  qed
qed

text \<open>
  Claim C10.  For a non-empty identifier the predicate of \<open>find\<close> (line 521, 825) and the
  predicate of the clean-up filter (line 524, 827) agree on every entry, so a 404 answer of the
  photo or partner deletion leaves the whole store, and with it the addressed collection, as
  it was.
\<close>

theorem not_found_leaves_collection_unchanged:
  assumes "ident \<noteq> []"
  shows "matches_find ident p = matches_cleanup ident p
    \<and> (fst (fst (delete_photo env db yearParam ident)) = 404 \<longrightarrow>
         fst (snd (delete_photo env db yearParam ident)) = db)
    \<and> (fst (fst (delete_partner env db yearParam ident)) = 404 \<longrightarrow>
         fst (snd (delete_partner env db yearParam ident)) = db)"
proof (intro conjI impI)
  show "matches_find ident p = matches_cleanup ident p"
    using assms matches_find_cleanup matches_cleanup_find by blast
next
  assume "fst (fst (delete_photo env db yearParam ident)) = 404"
  from delete_photo_status_404 [OF this]
  obtain y where y: "yearParam = Some y" "\<not> findOne_throws env"
    and cases: "db y = None \<and> delete_photo env db yearParam ident
                             = ((404, Message (ContentNotFound y)), db, [])
            \<or> (\<exists>doc. db y = Some doc \<and> \<not> save_throws env
                  \<and> (\<forall>p \<in> set (photos doc). \<not> matches_find ident p))"
    by blast
  from cases show "fst (snd (delete_photo env db yearParam ident)) = db"
  proof
    assume "db y = None \<and> delete_photo env db yearParam ident
                             = ((404, Message (ContentNotFound y)), db, [])"
    then show ?thesis by simp
  next
    assume "\<exists>doc. db y = Some doc \<and> \<not> save_throws env
                  \<and> (\<forall>p \<in> set (photos doc). \<not> matches_find ident p)"
    then obtain doc where doc: "db y = Some doc" "\<not> save_throws env"
      "\<forall>p \<in> set (photos doc). \<not> matches_find ident p" by blast
    from doc(3) assms have "\<forall>p \<in> set (photos doc). \<not> matches_cleanup ident p"
      using matches_cleanup_find by blast
    then have "filter (\<lambda>p. \<not> matches_cleanup ident p) (photos doc) = photos doc"
      by (rule filter_no_match)
    with delete_photo_not_found [of env db y doc ident, OF y(2) doc(1) doc(3)] doc(1,2) y(1)
    show ?thesis by (simp add: map_upd_triv)
  qed
next
  assume "fst (fst (delete_partner env db yearParam ident)) = 404"
  from delete_partner_status_404 [OF this]
  obtain y where y: "yearParam = Some y" "\<not> findOne_throws env"
    and cases: "db y = None \<and> delete_partner env db yearParam ident
                             = ((404, Message (ContentNotFound y)), db, [])
            \<or> (\<exists>doc. db y = Some doc \<and> \<not> save_throws env
                  \<and> (\<forall>p \<in> set (partners doc). \<not> matches_find ident p))"
    by blast
  from cases show "fst (snd (delete_partner env db yearParam ident)) = db"
  proof
    assume "db y = None \<and> delete_partner env db yearParam ident
                             = ((404, Message (ContentNotFound y)), db, [])"
    then show ?thesis by simp
  next
    assume "\<exists>doc. db y = Some doc \<and> \<not> save_throws env
                  \<and> (\<forall>p \<in> set (partners doc). \<not> matches_find ident p)"
    then obtain doc where doc: "db y = Some doc" "\<not> save_throws env"
      "\<forall>p \<in> set (partners doc). \<not> matches_find ident p" by blast
    from doc(3) assms have "\<forall>p \<in> set (partners doc). \<not> matches_cleanup ident p"
      using matches_cleanup_find by blast
    then have "filter (\<lambda>p. \<not> matches_cleanup ident p) (partners doc) = partners doc"
      by (rule filter_no_match)
    with delete_partner_not_found [of env db y doc ident, OF y(2) doc(1) doc(3)] doc(1,2) y(1)
    show ?thesis by (simp add: map_upd_triv)
  qed
qed

lemma delete_candidate_not_Inl [simp]: "delete_candidate parse item ident \<noteq> Inl e"
  using delete_candidate_returns [of parse item ident] by auto

lemma indep_photo:
  "fst (delete_photo (env\<lparr>uploader_destroy := d\<rparr>) db yearParam ident)
     = fst (delete_photo env db yearParam ident)
   \<and> fst (snd (delete_photo (env\<lparr>uploader_destroy := d\<rparr>) db yearParam ident))
     = fst (snd (delete_photo env db yearParam ident))"
  by (simp add: delete_photo_def Content_findOne_def doc_save_def Let_def
           split: option.splits sum.splits)

lemma indep_partner:
  "fst (delete_partner (env\<lparr>uploader_destroy := d\<rparr>) db yearParam ident)
     = fst (delete_partner env db yearParam ident)
   \<and> fst (snd (delete_partner (env\<lparr>uploader_destroy := d\<rparr>) db yearParam ident))
     = fst (snd (delete_partner env db yearParam ident))"
  by (simp add: delete_partner_def Content_findOne_def doc_save_def Let_def
           split: option.splits sum.splits)

lemma indep_award_photo:
  "fst (delete_award_photo (env\<lparr>uploader_destroy := d\<rparr>) db yearParam cname role)
     = fst (delete_award_photo env db yearParam cname role)
   \<and> fst (snd (delete_award_photo (env\<lparr>uploader_destroy := d\<rparr>) db yearParam cname role))
     = fst (snd (delete_award_photo env db yearParam cname role))"
  by (simp add: delete_award_photo_def Content_findOne_def doc_save_def Let_def
           split: option.splits sum.splits)

lemma indep_award_category:
  "fst (delete_award_category (env\<lparr>uploader_destroy := d\<rparr>) db yearParam cname)
     = fst (delete_award_category env db yearParam cname)
   \<and> fst (snd (delete_award_category (env\<lparr>uploader_destroy := d\<rparr>) db yearParam cname))
     = fst (snd (delete_award_category env db yearParam cname))"
  by (simp add: delete_award_category_def Content_findOne_def doc_save_def Let_def
           split: option.splits sum.splits)

lemma status_500_photo:
  "fst (fst (delete_photo env db yearParam ident)) = 500 \<Longrightarrow>
   findOne_throws env \<or> save_throws env"
  by (simp add: delete_photo_def Content_findOne_def doc_save_def Let_def
           split: option.splits sum.splits if_splits)

lemma status_500_partner:
  "fst (fst (delete_partner env db yearParam ident)) = 500 \<Longrightarrow>
   findOne_throws env \<or> save_throws env"
  by (simp add: delete_partner_def Content_findOne_def doc_save_def Let_def
           split: option.splits sum.splits if_splits)

lemma status_500_award_photo:
  "fst (fst (delete_award_photo env db yearParam cname role)) = 500 \<Longrightarrow>
   findOne_throws env \<or> save_throws env"
  by (simp add: delete_award_photo_def Content_findOne_def doc_save_def Let_def
           split: option.splits sum.splits if_splits)

lemma status_500_award_category:
  "fst (fst (delete_award_category env db yearParam cname)) = 500 \<Longrightarrow>
   findOne_throws env \<or> save_throws env"
  by (simp add: delete_award_category_def Content_findOne_def doc_save_def Let_def
           split: option.splits sum.splits if_splits)

lemma remove_photo_subset:
  "set (remove_photo item ps) \<subseteq> {p \<in> set ps. fst p \<noteq> fst item}"
  by (auto simp: remove_photo_def Let_def)

lemma tag_others:
  assumes "p \<in> set (tag xs)" and "fst p \<noteq> i"
  shows "snd p \<in> set (take i xs) \<union> set (drop (Suc i) xs)"
proof -
  from assms(1) obtain j where j: "j < length xs" "p = (j, xs ! j)"
    by (auto simp: set_tag)
  with assms(2) have "j < i \<or> Suc i \<le> j" by auto
  then show ?thesis
  proof
    assume "j < i"
    with j have "xs ! j \<in> set (take i xs)"
      by (auto simp: in_set_conv_nth intro!: exI [of _ j])
    with j show ?thesis by simp
  next
    assume "Suc i \<le> j"
    with j have "xs ! j \<in> set (drop (Suc i) xs)"
      by (auto simp: in_set_conv_nth intro!: exI [of _ "j - Suc i"])
    with j show ?thesis by simp
  qed
qed

lemma single_match_elsewhere:
  assumes "length (filter P xs) \<le> 1" and "i < length xs" and "P (xs ! i)"
  shows "\<forall>x \<in> set (take i xs) \<union> set (drop (Suc i) xs). \<not> P x"
proof -
  have "xs = take i xs @ xs ! i # drop (Suc i) xs"
    using assms(2) by (rule id_take_nth_drop)
  then have "filter P xs = filter P (take i xs) @ xs ! i # filter P (drop (Suc i) xs)"
    using assms(3) by (metis filter.simps(2) filter_append)
  with assms(1) have "filter P (take i xs) = [] \<and> filter P (drop (Suc i) xs) = []"
    by simp
  then show ?thesis by (auto simp: filter_empty_conv)
qed

lemma second_call_iff:
  assumes nf: "\<not> findOne_throws env" and ns: "\<not> save_throws env" and doc: "db y = Some doc"
  shows "(fst (delete_photo env db (Some y) ident) = (404, Message PhotoNotFound)
          \<and> fst (snd (delete_photo env db (Some y) ident)) = db)
         = (\<forall>p \<in> set (photos doc). \<not> matches_cleanup ident p)"
proof
  assume none: "\<forall>p \<in> set (photos doc). \<not> matches_cleanup ident p"
  then have nm: "\<forall>p \<in> set (photos doc). \<not> matches_find ident p"
    using matches_find_cleanup by blast
  from none have "filter (\<lambda>p. \<not> matches_cleanup ident p) (photos doc) = photos doc"
    by (rule filter_no_match)
  with delete_photo_not_found [of env db y doc ident, OF nf doc nm] ns doc
  show "fst (delete_photo env db (Some y) ident) = (404, Message PhotoNotFound)
          \<and> fst (snd (delete_photo env db (Some y) ident)) = db"
    by (simp add: map_upd_triv)
next
  assume a: "fst (delete_photo env db (Some y) ident) = (404, Message PhotoNotFound)
          \<and> fst (snd (delete_photo env db (Some y) ident)) = db"
  then have "fst (fst (delete_photo env db (Some y) ident)) = 404" by simp
  from delete_photo_status_404 [OF this] doc
  have nm: "\<forall>p \<in> set (photos doc). \<not> matches_find ident p" by auto
  from delete_photo_not_found [of env db y doc ident, OF nf doc nm] ns a
  have "db(y \<mapsto> doc\<lparr>photos := filter (\<lambda>p. \<not> matches_cleanup ident p) (photos doc)\<rparr>) = db"
    by simp
  then have "(db(y \<mapsto> doc\<lparr>photos := filter (\<lambda>p. \<not> matches_cleanup ident p) (photos doc)\<rparr>)) y = db y"
    by simp
  with doc have "doc\<lparr>photos := filter (\<lambda>p. \<not> matches_cleanup ident p) (photos doc)\<rparr> = doc"
    by simp
  then have "photos (doc\<lparr>photos := filter (\<lambda>p. \<not> matches_cleanup ident p) (photos doc)\<rparr>)
               = photos doc"
    by simp
  then have "filter (\<lambda>p. \<not> matches_cleanup ident p) (photos doc) = photos doc"
    by simp
  then show "\<forall>p \<in> set (photos doc). \<not> matches_cleanup ident p"
    by (simp add: filter_id_conv)
qed

lemma first_call_store:
  assumes nf: "\<not> findOne_throws env" and ns: "\<not> save_throws env" and doc: "db y = Some doc"
  shows "(\<exists>item. List.find (\<lambda>p. matches_find ident (snd p)) (tag (photos doc)) = Some item
            \<and> fst (fst (delete_photo env db (Some y) ident)) = 200
            \<and> fst (snd (delete_photo env db (Some y) ident))
                = db(y \<mapsto> doc\<lparr>photos := map snd (remove_photo item (tag (photos doc)))\<rparr>))
       \<or> ((\<forall>p \<in> set (photos doc). \<not> matches_find ident p)
            \<and> fst (fst (delete_photo env db (Some y) ident)) = 404
            \<and> fst (snd (delete_photo env db (Some y) ident))
                = db(y \<mapsto> doc\<lparr>photos := filter (\<lambda>p. \<not> matches_cleanup ident p) (photos doc)\<rparr>))"
proof (cases "List.find (\<lambda>p. matches_find ident (snd p)) (tag (photos doc))")
  case None
  then have nm: "\<forall>p \<in> set (photos doc). \<not> matches_find ident p"
    by (simp add: find_tag_None)
  from delete_photo_not_found [of env db y doc ident, OF nf doc nm] ns nm
  show ?thesis by simp
next
  case (Some item)
  from delete_photo_found [of env db y doc ident item, OF nf doc Some] ns Some
  show ?thesis by auto
qed

text \<open>
  Claim C5, as amended.  With a working document store, let the first deletion of \<open>ident\<close>
  leave the store \<open>db1\<close>.  The second deletion answers 404 "photo not found" and leaves \<open>db1\<close>
  unchanged exactly when no photo left in \<open>db1\<close> has \<open>ident\<close> as its key or in its URL.  That is
  the case whenever the first call answered 404, and whenever at most one photo of the
  original record matched.
\<close>

theorem delete_photo_twice:
  assumes nf: "\<not> findOne_throws env" and ns: "\<not> save_throws env" and doc: "db y = Some doc"
    and first: "delete_photo env db (Some y) ident = (r1, db1, log1)"
  shows "\<exists>doc1. db1 y = Some doc1
     \<and> ((fst (delete_photo env db1 (Some y) ident) = (404, Message PhotoNotFound)
          \<and> fst (snd (delete_photo env db1 (Some y) ident)) = db1)
        = (\<forall>p \<in> set (photos doc1).
             \<not> (public_id p = Some ident \<or> url_includes (url p) ident)))
     \<and> (fst r1 = 404 \<or> length (filter (matches_cleanup ident) (photos doc)) \<le> 1 \<longrightarrow>
          fst (delete_photo env db1 (Some y) ident) = (404, Message PhotoNotFound)
          \<and> fst (snd (delete_photo env db1 (Some y) ident)) = db1)"
proof -
  from first have db1: "db1 = fst (snd (delete_photo env db (Some y) ident))"
    and r1: "fst r1 = fst (fst (delete_photo env db (Some y) ident))" by simp_all
  from first_call_store [of env db y doc ident, OF nf ns doc]
  obtain doc1 where doc1: "db1 y = Some doc1"
    and shape: "(\<exists>item. List.find (\<lambda>p. matches_find ident (snd p)) (tag (photos doc)) = Some item
                  \<and> fst r1 = 200
                  \<and> photos doc1 = map snd (remove_photo item (tag (photos doc))))
              \<or> ((\<forall>p \<in> set (photos doc). \<not> matches_find ident p) \<and> fst r1 = 404
                  \<and> photos doc1 = filter (\<lambda>p. \<not> matches_cleanup ident p) (photos doc))"
    unfolding db1 r1 by auto
  note iff = second_call_iff [of env db1 y doc1 ident, OF nf ns doc1]
  have suff: "\<forall>p \<in> set (photos doc1). \<not> matches_cleanup ident p"
    if "fst r1 = 404 \<or> length (filter (matches_cleanup ident) (photos doc)) \<le> 1"
    using shape
  proof
    assume "(\<forall>p \<in> set (photos doc). \<not> matches_find ident p) \<and> fst r1 = 404
                  \<and> photos doc1 = filter (\<lambda>p. \<not> matches_cleanup ident p) (photos doc)"
    then show ?thesis by simp
  next
    assume "\<exists>item. List.find (\<lambda>p. matches_find ident (snd p)) (tag (photos doc)) = Some item
                  \<and> fst r1 = 200
                  \<and> photos doc1 = map snd (remove_photo item (tag (photos doc)))"
    then obtain item where item:
        "List.find (\<lambda>p. matches_find ident (snd p)) (tag (photos doc)) = Some item"
        "fst r1 = 200" "photos doc1 = map snd (remove_photo item (tag (photos doc)))"
      by blast
    with that have one: "length (filter (matches_cleanup ident) (photos doc)) \<le> 1" by simp
    from find_tag_Some [OF item(1)]
    have i: "fst item < length (photos doc)" "matches_cleanup ident (photos doc ! fst item)"
      using matches_find_cleanup by auto
    from single_match_elsewhere [OF one i]
    have others: "\<forall>x \<in> set (take (fst item) (photos doc))
                        \<union> set (drop (Suc (fst item)) (photos doc)). \<not> matches_cleanup ident x" .
    show ?thesis
    proof
      fix p assume "p \<in> set (photos doc1)"
      with item(3) obtain q where q: "q \<in> set (remove_photo item (tag (photos doc)))" "p = snd q"
        by auto
      with remove_photo_subset have "q \<in> set (tag (photos doc))" "fst q \<noteq> fst item"
        by blast+
      from tag_others [OF this] others q(2) show "\<not> matches_cleanup ident p" by blast
    qed
  qed
  show ?thesis
  proof (intro exI [of _ doc1] conjI impI)
    show "db1 y = Some doc1" by (rule doc1)
    show "(fst (delete_photo env db1 (Some y) ident) = (404, Message PhotoNotFound)
          \<and> fst (snd (delete_photo env db1 (Some y) ident)) = db1)
        = (\<forall>p \<in> set (photos doc1).
             \<not> (public_id p = Some ident \<or> url_includes (url p) ident))"
      using iff by (simp only: matches_cleanup_def)
  next
    assume h: "fst r1 = 404 \<or> length (filter (matches_cleanup ident) (photos doc)) \<le> 1"
    from iff [THEN iffD2, OF suff [OF h]]
    show "fst (delete_photo env db1 (Some y) ident) = (404, Message PhotoNotFound)"
      and "fst (snd (delete_photo env db1 (Some y) ident)) = db1"
      by simp_all
  qed
qed

lemma get_role_set_role_same:
  "valid_role role \<Longrightarrow> get_role role (set_role role v cat) = Some v"
  by (auto simp: valid_role_def get_role_def set_role_def)

lemma get_role_set_role_other:
  "r \<noteq> role \<Longrightarrow> get_role r (set_role role v cat) = get_role r cat"
  by (auto simp: get_role_def set_role_def)

lemma category_set_role: "category (set_role role v cat) = category cat"
  by (simp add: set_role_def)

lemma set_role_same: "get_role role cat = Some slot \<Longrightarrow> set_role role slot cat = cat"
  by (auto simp: get_role_def set_role_def split: if_splits)

lemma delete_award_photo_ok:
  assumes "\<not> findOne_throws env" and "\<not> save_throws env" and "db y = Some doc"
    and "cname \<noteq> []" and "valid_role role"
    and "List.find (\<lambda>a. category (snd a) = cname) (tag (awards doc)) = Some (i, cat)"
    and "get_role role cat = Some slot"
  shows "delete_award_photo env db (Some y) cname role =
     ((200, Doc (doc\<lparr>photos := (case photo slot of
                                   None \<Rightarrow> photos doc
                                 | Some ph \<Rightarrow> filter (\<lambda>p. \<not> same_photo ph p) (photos doc)),
                     awards := (awards doc)[i := set_role role slot cat]\<rparr>)),
      db(y \<mapsto> doc\<lparr>photos := (case photo slot of
                                   None \<Rightarrow> photos doc
                                 | Some ph \<Rightarrow> filter (\<lambda>p. \<not> same_photo ph p) (photos doc)),
                     awards := (awards doc)[i := set_role role slot cat]\<rparr>),
      (case photo slot of
         None \<Rightarrow> []
       | Some ph \<Rightarrow>
           if truthy (public_id ph) \<or> truthy (filename ph) \<or> truthy (url ph)
           then destroy_loop env [] (award_candidates (parseURL env) ph)
           else []))"
  using assms
  by (simp add: delete_award_photo_def Content_findOne_def doc_save_def Let_def
        preserved_slot_def)

lemma destroy_key_try: "destroy_key (try_destroy env c) = c"
  by (simp add: try_destroy_def split: sum.splits)

lemma set_spread_Set: "set (spread_Set seen cs) = set cs - set seen"
  by (induction cs arbitrary: seen) auto

lemma destroy_each_keys:
  "destroy_key ` set (destroy_each env cs) = {c \<in> set cs. c \<noteq> []}"
proof -
  have "map destroy_key (destroy_each env cs) = filter (\<lambda>c. c \<noteq> []) (spread_Set [] cs)"
    by (simp add: destroy_each_def comp_def destroy_key_try)
  then have "set (map destroy_key (destroy_each env cs))
               = set (filter (\<lambda>c. c \<noteq> []) (spread_Set [] cs))"
    by simp
  then show ?thesis by (auto simp: set_spread_Set)
qed

lemma destroy_loop_keys:
  "destroy_key ` set (destroy_loop env tried cs) = {c \<in> set cs. c \<noteq> [] \<and> c \<notin> set tried}"
  by (induction cs arbitrary: tried) (auto simp: destroy_key_try)

lemma award_candidates_Nil:
  "\<not> (truthy (public_id ph) \<or> truthy (filename ph) \<or> truthy (url ph)) \<Longrightarrow>
   award_candidates parse ph = []"
  by (simp add: award_candidates_def)

text \<open>
  Claim C6, which the code does not meet.  Let \<open>i\<close> be the position of the first category named
  \<open>cname\<close>, and let its slot for the valid role \<open>role\<close> hold the photo \<open>ph\<close>.  Deleting the slot's
  photo answers 200 after asking the remote store to delete every non-empty candidate key of
  \<open>ph\<close>, but the awards of the saved record are the awards of the record before: the slot still
  holds \<open>ph\<close>.
\<close>

theorem delete_award_photo_keeps_photo:
  assumes nf: "\<not> findOne_throws env" and ns: "\<not> save_throws env" and doc: "db y = Some doc"
    and cname: "cname \<noteq> []" and role: "valid_role role"
    and i: "i < length (awards doc)" "category (awards doc ! i) = cname"
    and first: "\<forall>j < i. category (awards doc ! j) \<noteq> cname"
    and slot: "get_role role (awards doc ! i) = Some slot"
    and ph: "photo slot = Some ph"
  shows "\<exists>doc' log.
       delete_award_photo env db (Some y) cname role = ((200, Doc doc'), db(y \<mapsto> doc'), log)
     \<and> destroy_key ` set log = {c \<in> set (award_candidates (parseURL env) ph). c \<noteq> []}
     \<and> awards doc' = awards doc
     \<and> get_role role (awards doc' ! i) = Some slot
     \<and> photo slot = Some ph"
proof -
  let ?cat = "awards doc ! i"
  let ?doc' = "doc\<lparr>photos := filter (\<lambda>p. \<not> same_photo ph p) (photos doc),
                    awards := (awards doc)[i := set_role role slot ?cat]\<rparr>"
  let ?log = "if truthy (public_id ph) \<or> truthy (filename ph) \<or> truthy (url ph)
              then destroy_loop env [] (award_candidates (parseURL env) ph) else []"
  have found: "List.find (\<lambda>a. category (snd a) = cname) (tag (awards doc)) = Some (i, ?cat)"
    using find_tag_first [of i "awards doc" "\<lambda>a. category a = cname"] i first by simp
  from delete_award_photo_ok [of env db y doc cname role i ?cat slot,
                               OF nf ns doc cname role found slot] ph
  have run: "delete_award_photo env db (Some y) cname role
               = ((200, Doc ?doc'), db(y \<mapsto> ?doc'), ?log)"
    by simp
  have same: "awards ?doc' = awards doc"
    using set_role_same [OF slot] by simp
  have keys: "destroy_key ` set ?log = {c \<in> set (award_candidates (parseURL env) ph). c \<noteq> []}"
  proof (cases "truthy (public_id ph) \<or> truthy (filename ph) \<or> truthy (url ph)")
    case True
    then show ?thesis by (simp add: destroy_loop_keys)
  next
    case False
    then show ?thesis using award_candidates_Nil [OF False] by simp
  qed
  show ?thesis
  proof (intro exI [of _ ?doc'] exI [of _ ?log] conjI)
    show "delete_award_photo env db (Some y) cname role
            = ((200, Doc ?doc'), db(y \<mapsto> ?doc'), ?log)"
      by (rule run)
    show "destroy_key ` set ?log = {c \<in> set (award_candidates (parseURL env) ph). c \<noteq> []}"
      by (rule keys)
    show "awards ?doc' = awards doc" by (rule same)
    show "get_role role (awards ?doc' ! i) = Some slot"
      using same slot by simp
    show "photo slot = Some ph" by (rule ph)
  qed
qed

lemma set_urls_or_ids:
  "set (urls_or_ids ph)
     = {v. v \<noteq> [] \<and> Some v \<in> {public_id ph, filename ph, url ph}}"
  by (auto simp: urls_or_ids_def List.map_filter_def truthy_def split: option.splits if_splits)

lemma swept_iff:
  "swept ids p = (\<exists>v \<in> set ids. v \<noteq> []
      \<and> (public_id p = Some v \<or> url p = Some v \<or> url_includes (url p) v))"
  by (simp add: swept_def list_ex_iff)

lemma swept_Nil: "filter (\<lambda>p. \<not> swept [] p) ps = ps"
  by (simp add: swept_def)

lemma delete_award_category_ok:
  assumes "\<not> findOne_throws env" and "\<not> save_throws env" and "db y = Some doc"
    and "cname \<noteq> []"
    and "List.find (\<lambda>a. category a = cname) (awards doc) = Some cat"
  shows "delete_award_category env db (Some y) cname =
     ((200, Doc (doc\<lparr>photos := filter (\<lambda>p. \<not> swept (concat (map urls_or_ids (slot_photos cat))) p)
                                    (photos doc),
                     awards := filter (\<lambda>a. category a \<noteq> cname) (awards doc)\<rparr>)),
      db(y \<mapsto> doc\<lparr>photos := filter (\<lambda>p. \<not> swept (concat (map urls_or_ids (slot_photos cat))) p)
                                    (photos doc),
                     awards := filter (\<lambda>a. category a \<noteq> cname) (awards doc)\<rparr>),
      concat (map (\<lambda>ph. destroy_each env (award_candidates (parseURL env) ph)) (slot_photos cat)))"
proof (cases "concat (map urls_or_ids (slot_photos cat)) = []")
  case True
  with assms show ?thesis
    by (simp add: delete_award_category_def Content_findOne_def doc_save_def Let_def
          swept_Nil del: concat_eq_Nil_conv)
next
  case False
  with assms show ?thesis
    by (simp add: delete_award_category_def Content_findOne_def doc_save_def Let_def
          del: concat_eq_Nil_conv)
qed

text \<open>
  Claim C7, as amended.  Let \<open>cat\<close> be the first category named \<open>cname\<close>, the one that \<open>find\<close>
  returns on line 722.  Deleting \<open>cname\<close> answers 200 whatever the remote store does; no
  category of that name is left and the others stay in order; the keys sent to the remote
  store are exactly the non-empty candidates (explicit key, file name, key derived from the
  URL) of the photos of the populated slots of \<open>cat\<close>, each call made whether or not an
  earlier one failed; and a gallery photo is dropped exactly when its key equals, or its URL
  equals or contains, the key, file name or URL of one of the slot photos of \<open>cat\<close>.  The
  slots of a later category of the same name are removed with it, without a remote call or a
  sweep.
\<close>

theorem delete_award_category_effect:
  assumes nf: "\<not> findOne_throws env" and ns: "\<not> save_throws env" and doc: "db y = Some doc"
    and cname: "cname \<noteq> []"
    and found: "List.find (\<lambda>a. category a = cname) (awards doc) = Some cat"
  shows "\<exists>doc' log.
       delete_award_category env db (Some y) cname = ((200, Doc doc'), db(y \<mapsto> doc'), log)
     \<and> (\<forall>d. fst (delete_award_category (env\<lparr>uploader_destroy := d\<rparr>) db (Some y) cname)
               = (200, Doc doc')
            \<and> fst (snd (delete_award_category (env\<lparr>uploader_destroy := d\<rparr>) db (Some y) cname))
               = db(y \<mapsto> doc'))
     \<and> awards doc' = filter (\<lambda>a. category a \<noteq> cname) (awards doc)
     \<and> destroy_key ` set log
         = {c. c \<noteq> [] \<and> (\<exists>ph \<in> set (slot_photos cat).
                                c \<in> set (award_candidates (parseURL env) ph))}
     \<and> (\<forall>ph \<in> set (slot_photos cat). \<forall>k. k \<noteq> [] \<and> public_id ph = Some k \<longrightarrow>
           k \<in> destroy_key ` set log)
     \<and> (\<forall>ph \<in> set (slot_photos cat). \<forall>u. u \<noteq> [] \<and> url ph = Some u \<longrightarrow>
           set (derived_candidates (parseURL env) u) - {[]} \<subseteq> destroy_key ` set log)
     \<and> photos doc'
         = filter (\<lambda>p. \<not> (\<exists>ph \<in> set (slot_photos cat). \<exists>v. v \<noteq> []
                              \<and> Some v \<in> {public_id ph, filename ph, url ph}
                              \<and> (public_id p = Some v \<or> url p = Some v
                                   \<or> url_includes (url p) v)))
                  (photos doc)"
proof -
  let ?ids = "concat (map urls_or_ids (slot_photos cat))"
  let ?doc' = "doc\<lparr>photos := filter (\<lambda>p. \<not> swept ?ids p) (photos doc),
                    awards := filter (\<lambda>a. category a \<noteq> cname) (awards doc)\<rparr>"
  let ?log = "concat (map (\<lambda>ph. destroy_each env (award_candidates (parseURL env) ph))
                          (slot_photos cat))"
  have run: "delete_award_category env db (Some y) cname
               = ((200, Doc ?doc'), db(y \<mapsto> ?doc'), ?log)"
    by (rule delete_award_category_ok [of env db y doc cname cat, OF nf ns doc cname found])
  have keys: "destroy_key ` set ?log
         = {c. c \<noteq> [] \<and> (\<exists>ph \<in> set (slot_photos cat).
                                c \<in> set (award_candidates (parseURL env) ph))}"
  proof -
    have "destroy_key ` set ?log
            = (\<Union>ph \<in> set (slot_photos cat).
                 destroy_key ` set (destroy_each env (award_candidates (parseURL env) ph)))"
      by auto
    also have "\<dots> = (\<Union>ph \<in> set (slot_photos cat).
                        {c \<in> set (award_candidates (parseURL env) ph). c \<noteq> []})"
      by (simp only: destroy_each_keys)
    also have "\<dots> = {c. c \<noteq> [] \<and> (\<exists>ph \<in> set (slot_photos cat).
                                c \<in> set (award_candidates (parseURL env) ph))}"
      by auto
    finally show ?thesis .
  qed
  have sweep: "swept ?ids p = (\<exists>ph \<in> set (slot_photos cat). \<exists>v. v \<noteq> []
                              \<and> Some v \<in> {public_id ph, filename ph, url ph}
                              \<and> (public_id p = Some v \<or> url p = Some v
                                   \<or> url_includes (url p) v))" for p
    unfolding swept_iff by (auto simp: set_urls_or_ids)
  show ?thesis
  proof (intro exI [of _ ?doc'] exI [of _ ?log] conjI allI ballI impI)
    show "delete_award_category env db (Some y) cname
            = ((200, Doc ?doc'), db(y \<mapsto> ?doc'), ?log)"
      by (rule run)
  next
    fix d
    from indep_award_category [where env = env and d = d and db = db and yearParam = "Some y" and cname = cname] run
    show "fst (delete_award_category (env\<lparr>uploader_destroy := d\<rparr>) db (Some y) cname)
               = (200, Doc ?doc')"
      and "fst (snd (delete_award_category (env\<lparr>uploader_destroy := d\<rparr>) db (Some y) cname))
               = db(y \<mapsto> ?doc')"
      by simp_all
  next
    show "awards ?doc' = filter (\<lambda>a. category a \<noteq> cname) (awards doc)" by simp
  next
    show "destroy_key ` set ?log
         = {c. c \<noteq> [] \<and> (\<exists>ph \<in> set (slot_photos cat).
                                c \<in> set (award_candidates (parseURL env) ph))}"
      by (rule keys)
  next
    fix ph k assume "ph \<in> set (slot_photos cat)" and "k \<noteq> [] \<and> public_id ph = Some k"
    then have "k \<noteq> [] \<and> (\<exists>ph \<in> set (slot_photos cat).
                                k \<in> set (award_candidates (parseURL env) ph))"
      by (auto simp: award_candidates_def truthy_def str_or_def intro!: bexI [of _ ph])
    then show "k \<in> destroy_key ` set ?log"
      unfolding keys by simp
  next
    fix ph u assume ph: "ph \<in> set (slot_photos cat)" and u: "u \<noteq> [] \<and> url ph = Some u"
    then have "set (derived_candidates (parseURL env) u)
                 \<subseteq> set (award_candidates (parseURL env) ph)"
      by (auto simp: award_candidates_def truthy_def str_or_def)
    with ph show "set (derived_candidates (parseURL env) u) - {[]} \<subseteq> destroy_key ` set ?log"
      unfolding keys by auto
  next
    show "photos ?doc'
         = filter (\<lambda>p. \<not> (\<exists>ph \<in> set (slot_photos cat). \<exists>v. v \<noteq> []
                              \<and> Some v \<in> {public_id ph, filename ph, url ph}
                              \<and> (public_id p = Some v \<or> url p = Some v
                                   \<or> url_includes (url p) v)))
                  (photos doc)"
      by (simp add: sweep)
  qed
qed

lemmas handler_defs =
  delete_photo_def delete_partner_def delete_award_photo_def delete_award_category_def
  Content_findOne_def doc_save_def server_error_def tag_def matches_find_def
  matches_cleanup_def url_includes_def truthy_def str_or_def delete_candidate_def
  remove_photo_def remove_partner_def try_destroy_def Let_def

lemmas example_defs =
  example_env_def offline_env_def photo_a_def photo_a2_def logo_l_def keyless_def
  gallery_doc_def keyless_doc_def slot_photo_def gallery_copy_def ada_def best_def
  awards_doc_def photo_k2_def bob_def best_empty_def best_again_def dup_doc_def

lemma literal_no_match:
  assumes "public_id p \<noteq> Some ident" and "\<forall>u. url p = Some u \<longrightarrow> \<not> sublist ident u"
  shows "\<not> matches_find ident p \<and> \<not> matches_cleanup ident p"
  using assms
  by (auto simp: matches_find_def matches_cleanup_def url_includes_def includes_str_sublist
           split: option.splits)

text \<open>
  Claim C8.  With a working document store, when \<open>find\<close> locates no photo (no partner) for
  the identifier, the handler saves the record with every entry removed whose key equals the
  identifier or whose non-empty URL contains it, and answers 404; the saved record is the one
  the store holds afterwards.  In particular, when no entry has the identifier as its key or
  anywhere in its URL, the answer is 404 and the store is as before.
\<close>

theorem not_found_policy:
  assumes nf: "\<not> findOne_throws env" and ns: "\<not> save_throws env" and doc: "db y = Some doc"
  shows "((\<forall>p \<in> set (photos doc). \<not> matches_find ident p) \<longrightarrow>
            delete_photo env db (Some y) ident =
              ((404, Message PhotoNotFound),
               db(y \<mapsto> doc\<lparr>photos := filter (\<lambda>p. \<not> (public_id p = Some ident
                                                        \<or> url_includes (url p) ident))
                                           (photos doc)\<rparr>),
               []))
       \<and> ((\<forall>p \<in> set (partners doc). \<not> matches_find ident p) \<longrightarrow>
            delete_partner env db (Some y) ident =
              ((404, Message PartnerNotFound),
               db(y \<mapsto> doc\<lparr>partners := filter (\<lambda>p. \<not> (public_id p = Some ident
                                                          \<or> url_includes (url p) ident))
                                             (partners doc)\<rparr>),
               []))
       \<and> ((\<forall>p \<in> set (photos doc). public_id p \<noteq> Some ident
                \<and> (\<forall>u. url p = Some u \<longrightarrow> \<not> sublist ident u)) \<longrightarrow>
            delete_photo env db (Some y) ident = ((404, Message PhotoNotFound), db, []))
       \<and> ((\<forall>p \<in> set (partners doc). public_id p \<noteq> Some ident
                \<and> (\<forall>u. url p = Some u \<longrightarrow> \<not> sublist ident u)) \<longrightarrow>
            delete_partner env db (Some y) ident = ((404, Message PartnerNotFound), db, []))"
proof (intro conjI impI)
  assume nm: "\<forall>p \<in> set (photos doc). \<not> matches_find ident p"
  from delete_photo_not_found [of env db y doc ident, OF nf doc nm] ns
  show "delete_photo env db (Some y) ident =
              ((404, Message PhotoNotFound),
               db(y \<mapsto> doc\<lparr>photos := filter (\<lambda>p. \<not> (public_id p = Some ident
                                                        \<or> url_includes (url p) ident))
                                           (photos doc)\<rparr>),
               [])"
    by (simp add: matches_cleanup_def)
next
  assume nm: "\<forall>p \<in> set (partners doc). \<not> matches_find ident p"
  from delete_partner_not_found [of env db y doc ident, OF nf doc nm] ns
  show "delete_partner env db (Some y) ident =
              ((404, Message PartnerNotFound),
               db(y \<mapsto> doc\<lparr>partners := filter (\<lambda>p. \<not> (public_id p = Some ident
                                                          \<or> url_includes (url p) ident))
                                             (partners doc)\<rparr>),
               [])"
    by (simp add: matches_cleanup_def)
next
  assume lit: "\<forall>p \<in> set (photos doc). public_id p \<noteq> Some ident
                \<and> (\<forall>u. url p = Some u \<longrightarrow> \<not> sublist ident u)"
  then have nm: "\<forall>p \<in> set (photos doc). \<not> matches_find ident p"
    and nc: "\<forall>p \<in> set (photos doc). \<not> matches_cleanup ident p"
    using literal_no_match by blast+
  from nc have "filter (\<lambda>p. \<not> matches_cleanup ident p) (photos doc) = photos doc"
    by (rule filter_no_match)
  with delete_photo_not_found [of env db y doc ident, OF nf doc nm] ns doc
  show "delete_photo env db (Some y) ident = ((404, Message PhotoNotFound), db, [])"
    by (simp add: map_upd_triv)
next
  assume lit: "\<forall>p \<in> set (partners doc). public_id p \<noteq> Some ident
                \<and> (\<forall>u. url p = Some u \<longrightarrow> \<not> sublist ident u)"
  then have nm: "\<forall>p \<in> set (partners doc). \<not> matches_find ident p"
    and nc: "\<forall>p \<in> set (partners doc). \<not> matches_cleanup ident p"
    using literal_no_match by blast+
  from nc have "filter (\<lambda>p. \<not> matches_cleanup ident p) (partners doc) = partners doc"
    by (rule filter_no_match)
  with delete_partner_not_found [of env db y doc ident, OF nf doc nm] ns doc
  show "delete_partner env db (Some y) ident = ((404, Message PartnerNotFound), db, [])"
    by (simp add: map_upd_triv)
qed

theorem not_found_policy_witness:
  "delete_photo example_env [2024 \<mapsto> gallery_doc] (Some 2024) ''zzz''
     = ((404, Message PhotoNotFound), [2024 \<mapsto> gallery_doc], [])
   \<and> delete_partner example_env [2024 \<mapsto> gallery_doc] (Some 2024) ''zzz''
     = ((404, Message PartnerNotFound), [2024 \<mapsto> gallery_doc], [])
   \<and> delete_photo example_env [2024 \<mapsto> keyless_doc] (Some 2024) []
     = ((404, Message PhotoNotFound), [2024 \<mapsto> keyless_doc\<lparr>photos := []\<rparr>], [])
   \<and> delete_partner example_env [2024 \<mapsto> keyless_doc] (Some 2024) []
     = ((404, Message PartnerNotFound), [2024 \<mapsto> keyless_doc\<lparr>partners := []\<rparr>], [])"
proof -
  have nf: "\<not> findOne_throws example_env" and ns: "\<not> save_throws example_env"
    by (simp_all add: example_env_def)
  have g: "[2024 \<mapsto> gallery_doc] (2024::int) = Some gallery_doc"
    and k: "[2024 \<mapsto> keyless_doc] (2024::int) = Some keyless_doc" by simp_all
  have g1: "\<forall>p \<in> set (photos gallery_doc). \<not> matches_find ''zzz'' p"
    by (simp add: example_defs handler_defs)
  have g2: "\<forall>p \<in> set (partners gallery_doc). \<not> matches_find ''zzz'' p"
    by (simp add: example_defs handler_defs)
  have k1: "\<forall>p \<in> set (photos keyless_doc). \<not> matches_find [] p"
    by (simp add: example_defs handler_defs)
  have k2: "\<forall>p \<in> set (partners keyless_doc). \<not> matches_find [] p"
    by (simp add: example_defs handler_defs)
  from not_found_policy [of example_env "[2024 \<mapsto> gallery_doc]" 2024 gallery_doc "''zzz''",
                         OF nf ns g] g1 g2
       not_found_policy [of example_env "[2024 \<mapsto> keyless_doc]" 2024 keyless_doc "[]",
                         OF nf ns k] k1 k2
  show ?thesis
    by (simp add: example_defs url_includes_def)
qed

section \<open>Worked examples for the deletion handlers\<close>

theorem not_found_leaves_collection_unchanged_witness:
  "fst (fst (delete_photo example_env [2024 \<mapsto> gallery_doc] (Some 2024) ''zzz'')) = 404
   \<and> fst (snd (delete_photo example_env [2024 \<mapsto> gallery_doc] (Some 2024) ''zzz''))
       = [2024 \<mapsto> gallery_doc]
   \<and> fst (fst (delete_partner example_env [2024 \<mapsto> gallery_doc] (Some 2024) ''zzz'')) = 404
   \<and> fst (snd (delete_partner example_env [2024 \<mapsto> gallery_doc] (Some 2024) ''zzz''))
       = [2024 \<mapsto> gallery_doc]"
proof -
  have ne: "''zzz'' \<noteq> []" by simp
  have a: "fst (fst (delete_photo example_env [2024 \<mapsto> gallery_doc] (Some 2024) ''zzz'')) = 404"
    by (simp add: example_defs handler_defs)
  have b: "fst (fst (delete_partner example_env [2024 \<mapsto> gallery_doc] (Some 2024) ''zzz'')) = 404"
    by (simp add: example_defs handler_defs)
  from not_found_leaves_collection_unchanged
         [OF ne, of photo_a example_env "[2024 \<mapsto> gallery_doc]" "Some 2024"] a b
  show ?thesis by simp
qed

text \<open>
  Claim C5 as stated fails when a second photo's URL contains the identifier: the first call
  removes the photo whose key is \<open>x/a\<close>, and the second call finds \<open>https://cdn/x/a2.jpg\<close>,
  answers 200 and removes that photo too.
\<close>

theorem delete_photo_twice_counterexample:
  "delete_photo example_env [2024 \<mapsto> gallery_doc] (Some 2024) ''x/a''
     = ((200, Doc (gallery_doc\<lparr>photos := [photo_a2]\<rparr>)),
        [2024 \<mapsto> gallery_doc\<lparr>photos := [photo_a2]\<rparr>],
        [DestroyThrew ''x/a'' RemoteError])
   \<and> delete_photo example_env [2024 \<mapsto> gallery_doc\<lparr>photos := [photo_a2]\<rparr>] (Some 2024) ''x/a''
     = ((200, Doc (gallery_doc\<lparr>photos := []\<rparr>)),
        [2024 \<mapsto> gallery_doc\<lparr>photos := []\<rparr>],
        [DestroyThrew ''x/a2'' RemoteError])
   \<and> fst (fst (delete_photo example_env [2024 \<mapsto> gallery_doc\<lparr>photos := [photo_a2]\<rparr>]
                    (Some 2024) ''x/a'')) \<noteq> 404"
  by (simp add: example_defs handler_defs)

theorem delete_photo_twice_witness:
  "fst (delete_photo example_env [2024 \<mapsto> gallery_doc\<lparr>photos := [photo_a]\<rparr>] (Some 2024) ''x/a2'')
     = (404, Message PhotoNotFound)
   \<and> fst (snd (delete_photo example_env [2024 \<mapsto> gallery_doc\<lparr>photos := [photo_a]\<rparr>]
                  (Some 2024) ''x/a2''))
     = [2024 \<mapsto> gallery_doc\<lparr>photos := [photo_a]\<rparr>]"
proof -
  have nf: "\<not> findOne_throws example_env" and ns: "\<not> save_throws example_env"
    by (simp_all add: example_env_def)
  have g: "[2024 \<mapsto> gallery_doc] (2024::int) = Some gallery_doc" by simp
  have first: "delete_photo example_env [2024 \<mapsto> gallery_doc] (Some 2024) ''x/a2''
     = ((200, Doc (gallery_doc\<lparr>photos := [photo_a]\<rparr>)),
        [2024 \<mapsto> gallery_doc\<lparr>photos := [photo_a]\<rparr>],
        [DestroyThrew ''x/a2'' RemoteError])"
    by (simp add: example_defs handler_defs)
  have one: "length (filter (matches_cleanup ''x/a2'') (photos gallery_doc)) \<le> 1"
    by (simp add: example_defs handler_defs)
  from delete_photo_twice [of example_env "[2024 \<mapsto> gallery_doc]" 2024 gallery_doc "''x/a2''",
                           OF nf ns g first] one
  show ?thesis by simp
qed

lemmas award_defs =
  valid_role_def get_role_def set_role_def award_candidates_def derived_candidates_def
  destroy_each_def same_photo_def people_of_def slot_photos_def urls_or_ids_def swept_def
  List.map_filter_def

theorem delete_award_photo_keeps_photo_witness:
  "delete_award_photo example_env [2024 \<mapsto> awards_doc] (Some 2024) ''Best'' ''winner''
     = ((200, Doc awards_doc), [2024 \<mapsto> awards_doc], [DestroyThrew ''f/a'' RemoteError])
   \<and> get_role ''winner'' (awards awards_doc ! 0) = Some ada
   \<and> photo ada = Some slot_photo"
proof -
  have nf: "\<not> findOne_throws example_env" and ns: "\<not> save_throws example_env"
    by (simp_all add: example_env_def)
  have g: "[2024 \<mapsto> awards_doc] (2024::int) = Some awards_doc" by simp
  have c: "''Best'' \<noteq> []" and r: "valid_role ''winner''" by (simp_all add: valid_role_def)
  have i: "0 < length (awards awards_doc)" "category (awards awards_doc ! 0) = ''Best''"
    "\<forall>j<0. category (awards awards_doc ! j) \<noteq> ''Best''"
    by (simp_all add: example_defs)
  have slot: "get_role ''winner'' (awards awards_doc ! 0) = Some ada"
    by (simp add: awards_doc_def best_def get_role_def)
  have ph: "photo ada = Some slot_photo" by (simp add: ada_def)
  from delete_award_photo_keeps_photo
         [of example_env "[2024 \<mapsto> awards_doc]" 2024 awards_doc "''Best''" "''winner''" 0 ada
             slot_photo,
          OF nf ns g c r i slot ph]
  obtain doc' log where run:
      "delete_award_photo example_env [2024 \<mapsto> awards_doc] (Some 2024) ''Best'' ''winner''
         = ((200, Doc doc'), [2024 \<mapsto> awards_doc](2024 \<mapsto> doc'), log)"
      and kept: "awards doc' = awards awards_doc"
    by (elim exE conjE) (rule that)
  have ev: "delete_award_photo example_env [2024 \<mapsto> awards_doc] (Some 2024) ''Best'' ''winner''
     = ((200, Doc awards_doc), [2024 \<mapsto> awards_doc], [DestroyThrew ''f/a'' RemoteError])"
    by (simp add: example_defs handler_defs award_defs resolver_defs preserved_slot_def)
  have "((200::nat, Doc doc'), [2024::int \<mapsto> awards_doc](2024 \<mapsto> doc'), log)
          = ((200, Doc awards_doc), [2024 \<mapsto> awards_doc], [DestroyThrew ''f/a'' RemoteError])"
    unfolding run [symmetric] by (rule ev)
  then have "Doc doc' = Doc awards_doc"
    by (simp only: prod.inject)
  then have d: "doc' = awards_doc"
    by (simp only: body.inject)
  from slot kept have "get_role ''winner'' (awards doc' ! 0) = Some ada"
    by (simp only:)
  then have "get_role ''winner'' (awards awards_doc ! 0) = Some ada"
    unfolding d .
  with ev ph show ?thesis by (intro conjI)
qed

text \<open>
  Claim C7 as stated fails for a slot photo that has a URL and no key: the key derived from
  the URL, \<open>f/a\<close>, is sent to the remote store, but the sweep of line 767-775 is made with the
  photo's key, file name and URL only, so the gallery photo whose key is \<open>f/a\<close> stays.  It
  also fails when two categories bear the name: both are removed, but the slot photo \<open>k2\<close> of
  the second is neither sent to the remote store nor swept from the gallery.
\<close>

theorem delete_award_category_effect_counterexample:
  "award_candidates (parseURL example_env) slot_photo = [''f/a'']
   \<and> public_id gallery_copy = Some ''f/a''
   \<and> delete_award_category example_env [2024 \<mapsto> awards_doc] (Some 2024) ''Best''
     = ((200, Doc (awards_doc\<lparr>photos := [gallery_copy], awards := []\<rparr>)),
        [2024 \<mapsto> awards_doc\<lparr>photos := [gallery_copy], awards := []\<rparr>],
        [DestroyThrew ''f/a'' RemoteError])
   \<and> slot_photos best_again = [photo_k2]
   \<and> delete_award_category example_env [2024 \<mapsto> dup_doc] (Some 2024) ''Best''
     = ((200, Doc (dup_doc\<lparr>photos := [photo_k2], awards := []\<rparr>)),
        [2024 \<mapsto> dup_doc\<lparr>photos := [photo_k2], awards := []\<rparr>],
        [])"
  by (simp add: example_defs handler_defs award_defs resolver_defs)

theorem delete_award_category_effect_witness:
  "delete_award_category example_env [2024 \<mapsto> awards_doc] (Some 2024) ''Best''
     = ((200, Doc (awards_doc\<lparr>photos := [gallery_copy], awards := []\<rparr>)),
        [2024 \<mapsto> awards_doc\<lparr>photos := [gallery_copy], awards := []\<rparr>],
        [DestroyThrew ''f/a'' RemoteError])
   \<and> fst (delete_award_category (example_env\<lparr>uploader_destroy := \<lambda>k. Inr Destroyed\<rparr>)
            [2024 \<mapsto> awards_doc] (Some 2024) ''Best'')
     = (200, Doc (awards_doc\<lparr>photos := [gallery_copy], awards := []\<rparr>))"
proof -
  have nf: "\<not> findOne_throws example_env" and ns: "\<not> save_throws example_env"
    by (simp_all add: example_env_def)
  have g: "[2024 \<mapsto> awards_doc] (2024::int) = Some awards_doc" by simp
  have c: "''Best'' \<noteq> []" by simp
  have found: "List.find (\<lambda>a. category a = ''Best'') (awards awards_doc) = Some best"
    by (simp add: awards_doc_def best_def)
  have run: "delete_award_category example_env [2024 \<mapsto> awards_doc] (Some 2024) ''Best''
     = ((200, Doc (awards_doc\<lparr>photos := [gallery_copy], awards := []\<rparr>)),
        [2024 \<mapsto> awards_doc\<lparr>photos := [gallery_copy], awards := []\<rparr>],
        [DestroyThrew ''f/a'' RemoteError])"
    by (simp add: example_defs handler_defs award_defs resolver_defs)
  from delete_award_category_effect
         [of example_env "[2024 \<mapsto> awards_doc]" 2024 awards_doc "''Best''" best,
          OF nf ns g c found]
  obtain doc' log where eff:
      "delete_award_category example_env [2024 \<mapsto> awards_doc] (Some 2024) ''Best''
         = ((200, Doc doc'), [2024 \<mapsto> awards_doc](2024 \<mapsto> doc'), log)"
      "\<forall>d. fst (delete_award_category (example_env\<lparr>uploader_destroy := d\<rparr>)
                   [2024 \<mapsto> awards_doc] (Some 2024) ''Best'') = (200, Doc doc')
            \<and> fst (snd (delete_award_category (example_env\<lparr>uploader_destroy := d\<rparr>)
                   [2024 \<mapsto> awards_doc] (Some 2024) ''Best''))
               = [2024 \<mapsto> awards_doc](2024 \<mapsto> doc')"
    by (elim exE conjE) (rule that)
  from eff(1) run have "doc' = awards_doc\<lparr>photos := [gallery_copy], awards := []\<rparr>" by simp
  with eff(2) run show ?thesis by simp
qed

section \<open>Failure semantics\<close>

lemma findOne_failure_photo:
  "findOne_throws env \<Longrightarrow> delete_photo env db (Some y) ident = (server_error, db, [])"
  by (simp add: delete_photo_def Content_findOne_def)

lemma findOne_failure_partner:
  "findOne_throws env \<Longrightarrow> delete_partner env db (Some y) ident = (server_error, db, [])"
  by (simp add: delete_partner_def Content_findOne_def)

lemma findOne_failure_award_photo:
  "findOne_throws env \<Longrightarrow> cname \<noteq> [] \<Longrightarrow> valid_role role \<Longrightarrow>
   delete_award_photo env db (Some y) cname role = (server_error, db, [])"
  by (simp add: delete_award_photo_def Content_findOne_def)

lemma findOne_failure_award_category:
  "findOne_throws env \<Longrightarrow> cname \<noteq> [] \<Longrightarrow>
   delete_award_category env db (Some y) cname = (server_error, db, [])"
  by (simp add: delete_award_category_def Content_findOne_def)

lemma save_failure_photo:
  assumes "\<not> findOne_throws env" and "db y = Some doc" and "save_throws env"
  shows "fst (delete_photo env db (Some y) ident) = server_error
         \<and> fst (snd (delete_photo env db (Some y) ident)) = db"
proof (cases "List.find (\<lambda>p. matches_find ident (snd p)) (tag (photos doc))")
  case None
  then have "\<forall>p \<in> set (photos doc). \<not> matches_find ident p" by (simp add: find_tag_None)
  from delete_photo_not_found [of env db y doc ident, OF assms(1,2) this] assms(3)
  show ?thesis by simp
next
  case (Some item)
  from delete_photo_found [of env db y doc ident item, OF assms(1,2) Some] assms(3)
  show ?thesis by auto
qed

lemma save_failure_partner:
  assumes "\<not> findOne_throws env" and "db y = Some doc" and "save_throws env"
  shows "fst (delete_partner env db (Some y) ident) = server_error
         \<and> fst (snd (delete_partner env db (Some y) ident)) = db"
proof (cases "List.find (\<lambda>p. matches_find ident (snd p)) (tag (partners doc))")
  case None
  then have "\<forall>p \<in> set (partners doc). \<not> matches_find ident p" by (simp add: find_tag_None)
  from delete_partner_not_found [of env db y doc ident, OF assms(1,2) this] assms(3)
  show ?thesis by simp
next
  case (Some item)
  from delete_partner_found [of env db y doc ident item, OF assms(1,2) Some] assms(3)
  show ?thesis by auto
qed

text \<open>
  Claim C9.  For each of the four deletion handlers the answer and the resulting store are the
  same whatever the remote store returns or throws.  An answer 500 implies that
  \<open>Content.findOne\<close> or \<open>doc.save\<close> failed; a failing \<open>findOne\<close> is answered 500 by all four, and
  a failing \<open>save\<close> is answered 500 by the photo and partner handlers, with the store left as
  it was.
\<close>

theorem remote_failures_never_surface:
  "fst (delete_photo (env\<lparr>uploader_destroy := d\<rparr>) db yearParam ident)
     = fst (delete_photo env db yearParam ident)
   \<and> fst (snd (delete_photo (env\<lparr>uploader_destroy := d\<rparr>) db yearParam ident))
     = fst (snd (delete_photo env db yearParam ident))
   \<and> fst (delete_partner (env\<lparr>uploader_destroy := d\<rparr>) db yearParam ident)
     = fst (delete_partner env db yearParam ident)
   \<and> fst (snd (delete_partner (env\<lparr>uploader_destroy := d\<rparr>) db yearParam ident))
     = fst (snd (delete_partner env db yearParam ident))
   \<and> fst (delete_award_photo (env\<lparr>uploader_destroy := d\<rparr>) db yearParam cname role)
     = fst (delete_award_photo env db yearParam cname role)
   \<and> fst (snd (delete_award_photo (env\<lparr>uploader_destroy := d\<rparr>) db yearParam cname role))
     = fst (snd (delete_award_photo env db yearParam cname role))
   \<and> fst (delete_award_category (env\<lparr>uploader_destroy := d\<rparr>) db yearParam cname)
     = fst (delete_award_category env db yearParam cname)
   \<and> fst (snd (delete_award_category (env\<lparr>uploader_destroy := d\<rparr>) db yearParam cname))
     = fst (snd (delete_award_category env db yearParam cname))
   \<and> (fst (fst (delete_photo env db yearParam ident)) = 500
        \<or> fst (fst (delete_partner env db yearParam ident)) = 500
        \<or> fst (fst (delete_award_photo env db yearParam cname role)) = 500
        \<or> fst (fst (delete_award_category env db yearParam cname)) = 500
        \<longrightarrow> findOne_throws env \<or> save_throws env)
   \<and> (findOne_throws env \<longrightarrow>
         fst (delete_photo env db (Some y) ident) = (500, Message ServerError)
         \<and> fst (delete_partner env db (Some y) ident) = (500, Message ServerError))
   \<and> (findOne_throws env \<and> cname \<noteq> [] \<and> valid_role role \<longrightarrow>
         fst (delete_award_photo env db (Some y) cname role) = (500, Message ServerError)
         \<and> fst (delete_award_category env db (Some y) cname) = (500, Message ServerError))
   \<and> (\<not> findOne_throws env \<and> db y = Some doc \<and> save_throws env \<longrightarrow>
         fst (delete_photo env db (Some y) ident) = (500, Message ServerError)
         \<and> fst (snd (delete_photo env db (Some y) ident)) = db
         \<and> fst (delete_partner env db (Some y) ident) = (500, Message ServerError)
         \<and> fst (snd (delete_partner env db (Some y) ident)) = db)"
proof (intro conjI impI)
  assume "fst (fst (delete_photo env db yearParam ident)) = 500
        \<or> fst (fst (delete_partner env db yearParam ident)) = 500
        \<or> fst (fst (delete_award_photo env db yearParam cname role)) = 500
        \<or> fst (fst (delete_award_category env db yearParam cname)) = 500"
  then show "findOne_throws env \<or> save_throws env"
    using status_500_photo status_500_partner status_500_award_photo status_500_award_category
    by blast
next
  assume a: "\<not> findOne_throws env \<and> db y = Some doc \<and> save_throws env"
  then have a1: "\<not> findOne_throws env" and a2: "db y = Some doc" and a3: "save_throws env"
    by simp_all
  from save_failure_photo [of env db y doc ident, OF a1 a2 a3]
  show "fst (delete_photo env db (Some y) ident) = (500, Message ServerError)"
    and "fst (snd (delete_photo env db (Some y) ident)) = db"
    by (simp_all add: server_error_def)
  from save_failure_partner [of env db y doc ident, OF a1 a2 a3]
  show "fst (delete_partner env db (Some y) ident) = (500, Message ServerError)"
    and "fst (snd (delete_partner env db (Some y) ident)) = db"
    by (simp_all add: server_error_def)
qed (simp_all add: indep_photo indep_partner indep_award_photo indep_award_category
       findOne_failure_photo findOne_failure_partner findOne_failure_award_photo
       findOne_failure_award_category server_error_def)

theorem remote_failures_never_surface_witness:
  "delete_photo example_env [2024 \<mapsto> gallery_doc] (Some 2024) ''p/l''
     = ((404, Message PhotoNotFound), [2024 \<mapsto> gallery_doc], [])
   \<and> delete_partner example_env [2024 \<mapsto> gallery_doc] (Some 2024) ''p/l''
     = ((200, Doc (gallery_doc\<lparr>partners := []\<rparr>)), [2024 \<mapsto> gallery_doc\<lparr>partners := []\<rparr>],
        [DestroyThrew ''p/l'' RemoteError])
   \<and> fst (delete_partner (example_env\<lparr>uploader_destroy := \<lambda>k. Inr NotFoundOnRemote\<rparr>)
            [2024 \<mapsto> gallery_doc] (Some 2024) ''p/l'')
     = (200, Doc (gallery_doc\<lparr>partners := []\<rparr>))
   \<and> fst (delete_photo offline_env [2024 \<mapsto> gallery_doc] (Some 2024) ''p/l'')
     = (500, Message ServerError)
   \<and> fst (delete_award_category offline_env [2024 \<mapsto> gallery_doc] (Some 2024) ''Best'')
     = (500, Message ServerError)
   \<and> findOne_throws offline_env"
proof -
  have a: "delete_photo example_env [2024 \<mapsto> gallery_doc] (Some 2024) ''p/l''
     = ((404, Message PhotoNotFound), [2024 \<mapsto> gallery_doc], [])"
    by (simp add: example_defs handler_defs)
  have b: "delete_partner example_env [2024 \<mapsto> gallery_doc] (Some 2024) ''p/l''
     = ((200, Doc (gallery_doc\<lparr>partners := []\<rparr>)), [2024 \<mapsto> gallery_doc\<lparr>partners := []\<rparr>],
        [DestroyThrew ''p/l'' RemoteError])"
    by (simp add: example_defs handler_defs)
  have off: "findOne_throws offline_env" by (simp add: example_defs)
  have c: "''Best'' \<noteq> []" and r: "valid_role ''winner''" by (simp_all add: valid_role_def)
  from remote_failures_never_surface
         [where env = example_env and d = "\<lambda>k. Inr NotFoundOnRemote"
            and db = "[2024 \<mapsto> gallery_doc]" and yearParam = "Some 2024" and ident = "''p/l''"
            and cname = "''Best''" and role = "''winner''" and y = 2024 and doc = gallery_doc]
       remote_failures_never_surface
         [where env = offline_env and d = "\<lambda>k. Inr NotFoundOnRemote"
            and db = "[2024 \<mapsto> gallery_doc]" and yearParam = "Some 2024" and ident = "''p/l''"
            and cname = "''Best''" and role = "''winner''" and y = 2024 and doc = gallery_doc]
       a b off c r
  show ?thesis by simp
qed

end
